theory Spec2Isabelle
  imports Main "HOL-Library.Code_Target_Numeral"
begin

section \<open>Rejected writes\<close>

text \<open>
  The storage engine rejects a write by raising an error; the statement is then rolled
  back as a whole. Each kind of rejection that the modelled code can reach is a value.
\<close>

datatype error =
    Unique_violation
  | Not_null_violation
  | Foreign_key_violation
  | Insufficient_privilege
  | Invalid_text_representation
  | Numeric_value_out_of_range
  | Type_error

section \<open>The address book\<close>

text \<open>
  A row of the table \<open>addresses\<close>. The uuid columns are natural numbers, the
  \<open>CHECK\<close> on \<open>type\<close> is the datatype \<open>address_type\<close>, a \<open>NOT NULL\<close> column has
  a plain type and a nullable column an option type. The two timestamp columns are left
  out: no hook reads them. The columns \<open>id\<close> and \<open>type\<close> are named \<open>addr_id\<close> and
  \<open>addr_type\<close>. The owner is taken to exist (the foreign key to the users table is not
  modelled), and so is the row-level policy that lets a user write only own rows.
\<close>

datatype address_type = Home | Work | Other

record address =
  addr_id :: nat
  user_id :: nat
  addr_type :: "address_type option"
  name :: string
  address_line_1 :: string
  address_line_2 :: "string option"
  city :: string
  state :: "string option"
  postal_code :: string
  country :: string
  phone :: "string option"
  is_default :: "bool option"

text \<open>
  The trigger function \<open>ensure_single_default_address\<close>, run before every insert and
  update of a row. It receives the table as it stands and the candidate row \<open>NEW\<close>, and
  returns both. \<open>NEW.is_default = true\<close> is not satisfied by a null flag. The inner
  \<open>UPDATE\<close> fires the trigger again for each sibling it rewrites, with a candidate whose
  flag is false, so the nested run takes the branch that changes nothing
  (lemma \<open>nested_firing_changes_nothing\<close> below).
\<close>

definition ensure_single_default_address ::
  "address list \<Rightarrow> address \<Rightarrow> address list \<times> address" where
  "ensure_single_default_address rows NEW =
     (if is_default NEW = Some True
      then (map (\<lambda>r. if user_id r = user_id NEW \<and> addr_id r \<noteq> addr_id NEW
                      then r\<lparr>is_default := Some False\<rparr> else r) rows,
            NEW)
      else (rows, NEW))"

text \<open>
  \<open>INSERT INTO addresses\<close>: the hook runs first, then the primary key is checked; a
  duplicate key rejects the statement, hook effects included.
\<close>

definition insert_address :: "address list \<Rightarrow> address \<Rightarrow> error + address list" where
  "insert_address rows NEW =
     (case ensure_single_default_address rows NEW of
        (rows', NEW') \<Rightarrow>
          if addr_id NEW' \<in> set (map addr_id rows') then Inl Unique_violation
          else Inr (rows' @ [NEW']))"

text \<open>
  \<open>UPDATE addresses SET ... WHERE id = i\<close>, the update the interface offers: the row is
  chosen by its key and \<open>set_cols\<close> computes the new values of the other columns from
  the old row; the key and the owner stay as they are. No row with that key: nothing
  happens.
\<close>

definition update_address ::
  "address list \<Rightarrow> nat \<Rightarrow> (address \<Rightarrow> address) \<Rightarrow> address list" where
  "update_address rows i set_cols =
     (case find (\<lambda>r. addr_id r = i) rows of
        None \<Rightarrow> rows
      | Some OLD \<Rightarrow>
          (case ensure_single_default_address rows
                  ((set_cols OLD)\<lparr>addr_id := addr_id OLD, user_id := user_id OLD\<rparr>) of
             (rows', NEW') \<Rightarrow>
               map (\<lambda>r. if addr_id r = i then NEW' else r) rows'))"

text \<open>\<open>DELETE FROM addresses WHERE id = i\<close>; no trigger is attached to it.\<close>

definition delete_address :: "address list \<Rightarrow> nat \<Rightarrow> address list" where
  "delete_address rows i = filter (\<lambda>r. addr_id r \<noteq> i) rows"

text \<open>
  A write request, and the table after it: a rejected insert commits nothing.
\<close>

datatype address_write =
    Insert address
  | Update nat "address \<Rightarrow> address"
  | Delete nat

fun commit_address_write :: "address list \<Rightarrow> address_write \<Rightarrow> address list" where
  "commit_address_write rows (Insert NEW) =
     (case insert_address rows NEW of Inl e \<Rightarrow> rows | Inr rows' \<Rightarrow> rows')"
| "commit_address_write rows (Update i set_cols) = update_address rows i set_cols"
| "commit_address_write rows (Delete i) = delete_address rows i"

definition default_rows :: "address list \<Rightarrow> nat \<Rightarrow> address list" where
  "default_rows rows u =
     filter (\<lambda>r. user_id r = u \<and> is_default r = Some True) rows"

text \<open>
  \<open>setAsDefault\<close> of the addresses page: two requests. The first clears the flag of
  every row of the signed-in user, row by row, each row passing through the hook (which
  does nothing for a candidate whose flag is false); its outcome is not inspected. The
  second sets the flag of the chosen row. Both requests are updates that cannot be
  rejected, so the handler always ends with its success message.
\<close>

definition clear_defaults_of_user :: "address list \<Rightarrow> nat \<Rightarrow> address list" where
  "clear_defaults_of_user rows uid =
     foldl (\<lambda>t i. update_address t i (\<lambda>r. r\<lparr>is_default := Some False\<rparr>)) rows
       (map addr_id (filter (\<lambda>r. user_id r = uid) rows))"

definition setAsDefault :: "nat \<Rightarrow> address list \<Rightarrow> nat \<Rightarrow> address list \<times> string" where
  "setAsDefault uid rows addressId =
     (update_address (clear_defaults_of_user rows uid) addressId
        (\<lambda>r. r\<lparr>is_default := Some True\<rparr>),
      ''Default address updated successfully!'')"

section \<open>Order numbers\<close>

subsection \<open>The SQL functions the allocator calls\<close>

text \<open>
  Characters: the decimal digits and the white space of the C locale (blank, and the
  control characters 9 to 13).
\<close>

definition is_digit :: "char \<Rightarrow> bool" where
  "is_digit c = (c \<in> set ''0123456789'')"

definition is_space :: "char \<Rightarrow> bool" where
  "is_space c = (c = CHR '' '' \<or> (9 \<le> (of_char c :: nat) \<and> (of_char c :: nat) \<le> 13))"

definition digit_char :: "nat \<Rightarrow> char" where
  "digit_char n = ''0123456789'' ! (n mod 10)"

definition digit_value :: "char \<Rightarrow> nat" where
  "digit_value c = of_char c - 48"

text \<open>\<open>n::TEXT\<close> for an integer: decimal digits, no leading zero, a minus sign if negative.\<close>

fun nat_to_text :: "nat \<Rightarrow> string" where
  "nat_to_text n =
     (if n < 10 then [digit_char n] else nat_to_text (n div 10) @ [digit_char (n mod 10)])"

declare nat_to_text.simps [simp del]

definition int_to_text :: "int \<Rightarrow> string" where
  "int_to_text i = (if i < 0 then CHR ''-'' # nat_to_text (nat (- i)) else nat_to_text (nat i))"

text \<open>
  \<open>LPAD(s, n, '0')\<close> and its like: a string shorter than \<open>n\<close> is filled on the left, a
  longer one is cut to its first \<open>n\<close> characters.
\<close>

definition lpad :: "string \<Rightarrow> nat \<Rightarrow> char \<Rightarrow> string" where
  "lpad s n c = (if n \<le> length s then take n s else replicate (n - length s) c @ s)"

text \<open>\<open>SUBSTRING(s FROM k)\<close>: the characters from position \<open>k\<close> on, counted from 1.\<close>

definition substring_from :: "string \<Rightarrow> nat \<Rightarrow> string" where
  "substring_from s k = drop (k - 1) s"

text \<open>
  \<open>s LIKE p || '%'\<close> for a \<open>p\<close> without wildcard or escape character (here \<open>ORD-\<close>,
  digits and a hyphen): \<open>s\<close> begins with \<open>p\<close>.
\<close>

definition like_prefix :: "string \<Rightarrow> string \<Rightarrow> bool" where
  "like_prefix s p = (take (length p) s = p)"

text \<open>
  \<open>CAST(s AS INTEGER)\<close> depends on the server's version: every version reads optional
  white space, an optional sign, at least one decimal digit and optional white space as a
  32-bit integer and raises on a text without digits; from version 16 on, hexadecimal,
  octal and binary forms and underscores between digits are read as well. The hook
  below therefore takes the cast as a parameter \<open>cast_int\<close>. \<open>cast_integer\<close> is the cast of
  the servers before version 16; it serves the concrete scenarios, whose texts every
  version reads alike.
\<close>

definition digits_value :: "string \<Rightarrow> nat" where
  "digits_value ds = foldl (\<lambda>a c. 10 * a + digit_value c) 0 ds"

definition cast_integer :: "string \<Rightarrow> error + int" where
  "cast_integer s =
     (let t = dropWhile is_space s;
          neg = (t \<noteq> [] \<and> hd t = CHR ''-'');
          u = (if t \<noteq> [] \<and> (hd t = CHR ''-'' \<or> hd t = CHR ''+'') then tl t else t);
          ds = takeWhile is_digit u;
          rest = dropWhile is_digit u;
          v = (if neg then - int (digits_value ds) else int (digits_value ds))
      in if ds = [] then Inl Invalid_text_representation
         else if v < - 2147483648 \<or> 2147483647 < v then Inl Numeric_value_out_of_range
         else if list_all is_space rest then Inr v
         else Inl Invalid_text_representation)"

text \<open>The cast applied to every selected row, in order; the first failure aborts the query.\<close>

fun cast_all :: "(string \<Rightarrow> error + int) \<Rightarrow> string list \<Rightarrow> error + int list" where
  "cast_all cast_int [] = Inr []"
| "cast_all cast_int (s # ss) =
     (case cast_int s of
        Inl e \<Rightarrow> Inl e
      | Inr v \<Rightarrow> (case cast_all cast_int ss of Inl e \<Rightarrow> Inl e | Inr vs \<Rightarrow> Inr (v # vs)))"

text \<open>The aggregate \<open>MAX\<close>: null over no rows.\<close>

fun sql_max :: "int list \<Rightarrow> int option" where
  "sql_max [] = None"
| "sql_max (v # vs) = Some (fold max vs v)"

text \<open>
  \<open>TO_CHAR(NOW(), 'YYYYMMDD')\<close>. \<open>NOW()\<close> enters as the calendar date it falls on in the
  session's time zone; the year is written with at least four digits, month and day with
  two.
\<close>

record date =
  year :: nat
  month :: nat
  day :: nat

definition zero_padded :: "nat \<Rightarrow> nat \<Rightarrow> string" where
  "zero_padded w n = replicate (w - length (nat_to_text n)) CHR ''0'' @ nat_to_text n"

definition to_char_YYYYMMDD :: "date \<Rightarrow> string" where
  "to_char_YYYYMMDD d = zero_padded 4 (year d) @ zero_padded 2 (month d) @ zero_padded 2 (day d)"

subsection \<open>The table and its insert hook\<close>

text \<open>
  A row of \<open>orders\<close>, and equally the candidate row of an insert once the column types
  and defaults have been applied (a value that a column's type does not admit is refused
  before any hook runs). \<open>order_number\<close> is nullable in a candidate: the \<open>NOT NULL\<close>
  constraint is checked after the hook. Money is \<open>decimal(10,2)\<close>, held in cents. The
  \<open>jsonb\<close> columns hold objects whose members are strings or null. The columns \<open>id\<close>,
  \<open>user_id\<close> and \<open>notes\<close> are named \<open>ord_id\<close>, \<open>order_user_id\<close> and \<open>order_notes\<close>; the
  timestamps are left out.
\<close>

datatype order_status = Pending | Confirmed | Processing | Shipped | Delivered | Cancelled

datatype payment_state = Payment_pending | Paid | Failed | Refunded

type_synonym jsonb = "(string \<times> string option) list"

record order =
  ord_id :: nat
  order_number :: "string option"
  order_user_id :: nat
  status :: "order_status option"
  payment_status :: "payment_state option"
  total_amount :: int
  shipping_amount :: "int option"
  tax_amount :: "int option"
  discount_amount :: "int option"
  currency :: "string option"
  shipping_address :: jsonb
  billing_address :: "jsonb option"
  payment_method :: "string option"
  payment_id :: "string option"
  order_notes :: "string option"

text \<open>
  Row-level security is enabled on \<open>orders\<close>, with two policies for the role
  \<open>authenticated\<close>: a user reads the rows whose \<open>user_id\<close> is the user's own, and inserts
  only such rows. A session is that of an authenticated user, or of the table's owner, whom
  the policies do not bind. Constraints see the whole table whatever the session.
\<close>

datatype session = Authenticated nat | Table_owner

definition readable_orders :: "session \<Rightarrow> order list \<Rightarrow> order list" where
  "readable_orders s rows =
     (case s of
        Authenticated uid \<Rightarrow> filter (\<lambda>r. order_user_id r = uid) rows
      | Table_owner \<Rightarrow> rows)"

definition may_insert_order :: "session \<Rightarrow> order \<Rightarrow> bool" where
  "may_insert_order s NEW =
     (case s of Authenticated uid \<Rightarrow> order_user_id NEW = uid | Table_owner \<Rightarrow> True)"

definition order_prefix :: "date \<Rightarrow> string" where
  "order_prefix now = ''ORD-'' @ to_char_YYYYMMDD now @ ''-''"

text \<open>
  The rows the subquery selects (\<open>WHERE order_number LIKE 'ORD-' || today || '-%'\<close>) among
  those it is given, each reduced to \<open>SUBSTRING(order_number FROM 14)\<close>.
\<close>

definition todays_numbers :: "date \<Rightarrow> order list \<Rightarrow> string list" where
  "todays_numbers now rows =
     filter (\<lambda>n. like_prefix n (order_prefix now))
       (concat (map (\<lambda>r. case order_number r of None \<Rightarrow> [] | Some n \<Rightarrow> [n]) rows))"

definition todays_suffixes :: "date \<Rightarrow> order list \<Rightarrow> string list" where
  "todays_suffixes now rows = map (\<lambda>n. substring_from n 14) (todays_numbers now rows)"

text \<open>
  The subquery \<open>SELECT COALESCE(MAX(CAST(... AS INTEGER)), 0) + 1\<close>; the sum is a 32-bit
  integer and raises when it does not fit.
\<close>

definition next_suffix ::
  "(string \<Rightarrow> error + int) \<Rightarrow> date \<Rightarrow> order list \<Rightarrow> error + int" where
  "next_suffix cast_int now rows =
     (case cast_all cast_int (todays_suffixes now rows) of
        Inl e \<Rightarrow> Inl e
      | Inr vs \<Rightarrow>
          (let m = (case sql_max vs of None \<Rightarrow> 0 | Some v \<Rightarrow> v)
           in if 2147483647 < m + 1 then Inl Numeric_value_out_of_range else Inr (m + 1)))"

text \<open>
  The trigger function \<open>set_order_number\<close> of the schema migration, run before every
  insert of an order. It is not declared \<open>SECURITY DEFINER\<close>, so it runs with the rights of
  the inserting session: \<open>rows\<close> are the rows of \<open>orders\<close> that this session can read.
\<close>

definition set_order_number ::
  "(string \<Rightarrow> error + int) \<Rightarrow> date \<Rightarrow> order list \<Rightarrow> order \<Rightarrow> error + order" where
  "set_order_number cast_int now rows NEW =
     (if order_number NEW = None \<or> order_number NEW = Some []
      then (case next_suffix cast_int now rows of
              Inl e \<Rightarrow> Inl e
            | Inr k \<Rightarrow>
                Inr (NEW\<lparr>order_number :=
                       Some (order_prefix now @ lpad (int_to_text k) 4 CHR ''0'')\<rparr>))
      else Inr NEW)"

text \<open>
  A second migration defines the function with the same assignment and without the
  guard. Both say \<open>CREATE OR REPLACE\<close>, so the one applied last is in force. The
  properties below are about the guarded function; \<open>set_order_number_guard\<close> relates
  the two.
\<close>

definition set_order_number_unguarded ::
  "(string \<Rightarrow> error + int) \<Rightarrow> date \<Rightarrow> order list \<Rightarrow> order \<Rightarrow> error + order" where
  "set_order_number_unguarded cast_int now rows NEW =
     (case next_suffix cast_int now rows of
        Inl e \<Rightarrow> Inl e
      | Inr k \<Rightarrow>
          Inr (NEW\<lparr>order_number :=
                 Some (order_prefix now @ lpad (int_to_text k) 4 CHR ''0'')\<rparr>))"

text \<open>
  \<open>INSERT INTO orders\<close> by a session: the hook on the rows the session can read, then
  the insert policy on the candidate the hook returns, then the constraints on the whole
  table (\<open>order_number NOT NULL\<close>, the primary key, \<open>order_number UNIQUE\<close>). The result
  is the new table and the stored row, which the client reads back.
\<close>

definition insert_order ::
  "(string \<Rightarrow> error + int) \<Rightarrow> session \<Rightarrow> date \<Rightarrow> order list \<Rightarrow> order
     \<Rightarrow> error + order list \<times> order" where
  "insert_order cast_int s now rows NEW =
     (case set_order_number cast_int now (readable_orders s rows) NEW of
        Inl e \<Rightarrow> Inl e
      | Inr NEW' \<Rightarrow>
          if \<not> may_insert_order s NEW' then Inl Insufficient_privilege
          else if order_number NEW' = None then Inl Not_null_violation
          else if ord_id NEW' \<in> set (map ord_id rows)
                  \<or> order_number NEW' \<in> set (map order_number rows)
          then Inl Unique_violation
          else Inr (rows @ [NEW'], NEW'))"

text \<open>
  The orders table after a sequence of insert requests, each with its session and its
  day; a rejected insert commits nothing. (No policy lets a client update or delete an
  order.)
\<close>

definition commit_order_insert ::
  "(string \<Rightarrow> error + int) \<Rightarrow> order list \<Rightarrow> session \<times> date \<times> order \<Rightarrow> order list" where
  "commit_order_insert cast_int rows req =
     (case insert_order cast_int (fst req) (fst (snd req)) rows (snd (snd req)) of
        Inl e \<Rightarrow> rows
      | Inr res \<Rightarrow> fst res)"

text \<open>
  The order number with counter \<open>k\<close> on a day, as the hook writes it, and the dates the
  format \<open>YYYYMMDD\<close> is meant for.
\<close>

definition day_number :: "date \<Rightarrow> nat \<Rightarrow> string" where
  "day_number now k = order_prefix now @ lpad (nat_to_text k) 4 CHR ''0''"


section \<open>Checkout\<close>

text \<open>
  A row of \<open>order_items\<close>; the generated key and the timestamp are left out. The columns
  \<open>product_id\<close> and \<open>quantity\<close> are named \<open>item_product_id\<close> and \<open>item_quantity\<close>.
\<close>

record order_item =
  order_id :: nat
  item_product_id :: nat
  product_name :: string
  product_sku :: "string option"
  item_quantity :: int
  unit_price :: int
  total_price :: int

text \<open>
  The tables the checkout touches. Of \<open>products\<close> only the keys matter here: they are
  what the foreign key of \<open>order_items\<close> is checked against.
\<close>

record database =
  addresses :: "address list"
  products :: "nat list"
  orders :: "order list"
  order_items :: "order_item list"

text \<open>
  Row-level security is enabled on \<open>order_items\<close> as well: an authenticated user inserts
  a row only if its \<open>order_id\<close> is that of an order of the user's own.
\<close>

definition may_insert_order_item :: "session \<Rightarrow> order list \<Rightarrow> order_item \<Rightarrow> bool" where
  "may_insert_order_item s rows i =
     (case s of
        Authenticated uid \<Rightarrow> list_ex (\<lambda>r. ord_id r = order_id i \<and> order_user_id r = uid) rows
      | Table_owner \<Rightarrow> True)"

text \<open>
  \<open>INSERT INTO order_items\<close> of a batch of rows by a session: one statement, so one row
  that the insert policy refuses, or that violates a foreign key, rejects the whole batch.
  The policy is checked as each row is written, the foreign keys at the end of the
  statement.
\<close>

definition insert_order_items ::
  "session \<Rightarrow> database \<Rightarrow> order_item list \<Rightarrow> error + database" where
  "insert_order_items s d items =
     (if \<not> list_all (may_insert_order_item s (orders d)) items then Inl Insufficient_privilege
      else if list_all (\<lambda>i. order_id i \<in> set (map ord_id (orders d))
                             \<and> item_product_id i \<in> set (products d)) items
      then Inr (d\<lparr>order_items := order_items d @ items\<rparr>)
      else Inl Foreign_key_violation)"

text \<open>Address writes, seen on the whole database.\<close>

definition address_writes :: "database \<Rightarrow> address_write list \<Rightarrow> database" where
  "address_writes d ws = d\<lparr>addresses := foldl commit_address_write (addresses d) ws\<rparr>"

text \<open>
  A cart line as the page receives it from the cart context: the product key, the
  quantity and the joined product (\<open>name\<close>, \<open>sku\<close>, \<open>price\<close>; \<open>name\<close> is called
  \<open>prod_name\<close>). Prices are in cents.
\<close>

record cart_product =
  prod_name :: string
  sku :: "string option"
  price :: int

record cart_item =
  product_id :: nat
  quantity :: int
  product :: cart_product

text \<open>
  What the page shows and remembers (its React state). The card fields are what the user
  typed, as JavaScript strings: lists of UTF-16 code units. The text of \<open>error\<close> is one
  of: empty, the card-details message, or \<open>Error placing order:\<close> followed by the message
  of the error caught.
\<close>

type_synonym js_string = "nat list"

record payment_form =
  cardNumber :: js_string
  expiryDate :: js_string
  cvv :: js_string
  cardName :: js_string

datatype ui_message = No_message | Fill_in_card_details | Error_placing_order error

record page =
  currentStep :: nat
  selectedAddress :: "address option"
  paymentMethod :: string
  loading :: bool
  error :: ui_message
  orderPlaced :: bool
  newOrderId :: "string option"
  paymentForm :: payment_form

record world =
  store :: database
  cartItems :: "cart_item list"
  view :: page

text \<open>
  What a submission takes from outside the page: the signed-in user; the server's date,
  its integer cast and the key it generates for the order; and two functions of the cart
  context, which is defined outside the page and so enters as parameters:
  \<open>getCartTotal\<close>, the cart's total in cents, and \<open>clearCart\<close>, which may fail.
\<close>

record submission =
  user :: nat
  today :: date
  server_cast :: "string \<Rightarrow> error + int"
  order_uuid :: nat
  getCartTotal :: "cart_item list \<Rightarrow> int"
  clearCart :: "cart_item list \<Rightarrow> error + cart_item list"

text \<open>
  \<open>!s.trim()\<close>: the string is empty once its white space and line terminators are
  removed. These are the code units 9 to 13, 32, 160, 5760, 8192 to 8202, 8232, 8233,
  8239, 8287, 12288 and 65279.
\<close>

definition js_white_space :: "nat \<Rightarrow> bool" where
  "js_white_space c =
     ((9 \<le> c \<and> c \<le> 13) \<or> c = 32 \<or> c = 160 \<or> c = 5760 \<or> (8192 \<le> c \<and> c \<le> 8202)
      \<or> c = 8232 \<or> c = 8233 \<or> c = 8239 \<or> c = 8287 \<or> c = 12288 \<or> c = 65279)"

definition js_blank :: "js_string \<Rightarrow> bool" where
  "js_blank s = list_all js_white_space s"

definition card_details_missing :: "page \<Rightarrow> bool" where
  "card_details_missing p =
     (paymentMethod p = ''card'' \<and>
      (js_blank (cardNumber (paymentForm p)) \<or> js_blank (expiryDate (paymentForm p))
       \<or> js_blank (cvv (paymentForm p)) \<or> js_blank (cardName (paymentForm p))))"

text \<open>
  Amounts. JavaScript multiplies in binary floating point, and the \<open>decimal(10,2)\<close>
  column then rounds what it is sent to the cent, ties away from zero. Here a product is
  computed exactly and then rounded: \<open>to_cents\<close> takes an amount in hundredths of a cent.
  The products below are whole multiples of four hundredths of a cent, so they are never
  nearer than two hundredths of a cent to a tie, far more than the floating-point error of
  an amount the columns can hold. A column holds at most ten digits, eight of them
  before the point (\<open>fits_decimal_10_2\<close>).
\<close>

definition to_cents :: "int \<Rightarrow> int" where
  "to_cents x = (if 0 \<le> x then (x + 50) div 100 else - ((50 - x) div 100))"

definition fits_decimal_10_2 :: "int \<Rightarrow> bool" where
  "fits_decimal_10_2 c = (- 10000000000 < c \<and> c < 10000000000)"

text \<open>
  Modelled from the spec: the subtotal of a cart, the sum over its lines of unit price
  times quantity. The function \<open>getCartTotal\<close> of the cart context, which is to compute it,
  is not among the sources.
\<close>

definition cart_subtotal :: "cart_item list \<Rightarrow> int" where
  "cart_subtotal items = sum_list (map (\<lambda>i. price (product i) * quantity i) items)"

text \<open>
  \<open>orderData\<close>: the row sent to \<open>orders\<close>. No order number and no key are sent; the key
  is the server's. The total is \<open>getCartTotal() * 1.08\<close> and the tax \<open>getCartTotal() * 0.08\<close>,
  as the columns hold them. The shipping address is an object built member by member from
  the selected address.
\<close>

definition orderData :: "submission \<Rightarrow> world \<Rightarrow> address \<Rightarrow> order" where
  "orderData env w a =
     \<lparr>ord_id = order_uuid env,
      order_number = None,
      order_user_id = user env,
      status = Some Confirmed,
      payment_status = Some (if paymentMethod (view w) = ''cod'' then Payment_pending else Paid),
      total_amount = to_cents (108 * getCartTotal env (cartItems w)),
      shipping_amount = Some 0,
      tax_amount = Some (to_cents (8 * getCartTotal env (cartItems w))),
      discount_amount = Some 0,
      currency = Some ''USD'',
      shipping_address =
        [(''name'', Some (name a)),
         (''address_line_1'', Some (address_line_1 a)),
         (''address_line_2'', address_line_2 a),
         (''city'', Some (city a)),
         (''state'', state a),
         (''postal_code'', Some (postal_code a)),
         (''country'', Some (country a)),
         (''phone'', phone a)],
      billing_address = None,
      payment_method = Some (paymentMethod (view w)),
      payment_id = None,
      order_notes = None\<rparr>"

text \<open>
  \<open>orderItems\<close>: one row per cart line. \<open>price * quantity\<close> is a whole number of cents.
\<close>

definition orderItems :: "order \<Rightarrow> cart_item list \<Rightarrow> order_item list" where
  "orderItems ord items =
     map (\<lambda>item. \<lparr>order_id = ord_id ord,
                   item_product_id = product_id item,
                   product_name = prod_name (product item),
                   product_sku = sku (product item),
                   item_quantity = quantity item,
                   unit_price = price (product item),
                   total_price = price (product item) * quantity item\<rparr>) items"

text \<open>
  The two requests of a submission, \<open>supabase.from('orders').insert(orderData)\<close> and
  \<open>supabase.from('order_items').insert(orderItems)\<close>, made as the signed-in user. The
  server first reads the rows sent into the column types: an amount that does not fit
  \<open>decimal(10,2)\<close>, or a quantity that does not fit \<open>integer\<close>, is refused before any
  hook, policy or constraint is looked at.
\<close>

definition fits_integer :: "int \<Rightarrow> bool" where
  "fits_integer n = (- 2147483648 \<le> n \<and> n \<le> 2147483647)"

definition order_fits :: "order \<Rightarrow> bool" where
  "order_fits r =
     (fits_decimal_10_2 (total_amount r)
      \<and> (case shipping_amount r of None \<Rightarrow> True | Some c \<Rightarrow> fits_decimal_10_2 c)
      \<and> (case tax_amount r of None \<Rightarrow> True | Some c \<Rightarrow> fits_decimal_10_2 c)
      \<and> (case discount_amount r of None \<Rightarrow> True | Some c \<Rightarrow> fits_decimal_10_2 c))"

definition order_item_fits :: "order_item \<Rightarrow> bool" where
  "order_item_fits i =
     (fits_integer (item_quantity i) \<and> fits_decimal_10_2 (unit_price i)
      \<and> fits_decimal_10_2 (total_price i))"

definition orders_request ::
  "submission \<Rightarrow> database \<Rightarrow> order \<Rightarrow> error + order list \<times> order" where
  "orders_request env d r =
     (if order_fits r
      then insert_order (server_cast env) (Authenticated (user env)) (today env) (orders d) r
      else Inl Numeric_value_out_of_range)"

definition order_items_request ::
  "submission \<Rightarrow> database \<Rightarrow> order_item list \<Rightarrow> error + database" where
  "order_items_request env d items =
     (if list_all order_item_fits items
      then insert_order_items (Authenticated (user env)) d items
      else Inl Numeric_value_out_of_range)"

text \<open>
  The \<open>try\<close> block of \<open>handlePaymentSubmit\<close>: the world it leaves behind and either the
  error thrown or the stored order. Reading a member of a null \<open>selectedAddress\<close> throws.
  Each request is its own transaction: what an earlier request committed stays when a
  later one fails.
\<close>

definition place_order :: "submission \<Rightarrow> world \<Rightarrow> world \<times> (error + order)" where
  "place_order env w =
     (case selectedAddress (view w) of
        None \<Rightarrow> (w, Inl Type_error)
      | Some a \<Rightarrow>
          (case orders_request env (store w) (orderData env w a) of
             Inl e \<Rightarrow> (w, Inl e)
           | Inr (rows', ord) \<Rightarrow>
               (let w1 = w\<lparr>store := (store w)\<lparr>orders := rows'\<rparr>\<rparr> in
                case order_items_request env (store w1) (orderItems ord (cartItems w1)) of
                  Inl e \<Rightarrow> (w1, Inl e)
                | Inr d2 \<Rightarrow>
                    (let w2 = w1\<lparr>store := d2\<rparr> in
                     case clearCart env (cartItems w2) of
                       Inl e \<Rightarrow> (w2, Inl e)
                     | Inr c \<Rightarrow> (w2\<lparr>cartItems := c\<rparr>, Inr ord)))))"

text \<open>
  \<open>handlePaymentSubmit\<close>: the card check, then the \<open>try\<close> block with its \<open>catch\<close> and
  \<open>finally\<close>.
\<close>

definition handlePaymentSubmit :: "submission \<Rightarrow> world \<Rightarrow> world" where
  "handlePaymentSubmit env w =
     (let w0 = w\<lparr>view := (view w)\<lparr>loading := True, error := No_message\<rparr>\<rparr> in
      if card_details_missing (view w0)
      then w0\<lparr>view := (view w0)\<lparr>error := Fill_in_card_details, loading := False\<rparr>\<rparr>
      else (case place_order env w0 of
              (w', Inl e) \<Rightarrow>
                w'\<lparr>view := (view w')\<lparr>error := Error_placing_order e, loading := False\<rparr>\<rparr>
            | (w', Inr ord) \<Rightarrow>
                w'\<lparr>view := (view w')\<lparr>newOrderId := order_number ord, orderPlaced := True,
                                     currentStep := 3, loading := False\<rparr>\<rparr>))"

section \<open>Sample rows\<close>

text \<open>
  Rows with fixed filler columns, for stating concrete scenarios. The sample orders are
  user 7's.
\<close>

definition sample_address :: "nat \<Rightarrow> nat \<Rightarrow> bool \<Rightarrow> address" where
  "sample_address i u d =
     \<lparr>addr_id = i, user_id = u, addr_type = Some Home, name = ''Ann'',
      address_line_1 = ''1 Main St'', address_line_2 = None, city = ''Springfield'',
      state = Some ''IL'', postal_code = ''62701'', country = ''United States'',
      phone = None, is_default = Some d\<rparr>"

definition sample_order :: "nat \<Rightarrow> string option \<Rightarrow> order" where
  "sample_order i n =
     \<lparr>ord_id = i, order_number = n, order_user_id = 7, status = Some Confirmed,
      payment_status = Some Payment_pending, total_amount = 3239, shipping_amount = Some 0,
      tax_amount = Some 240, discount_amount = Some 0, currency = Some ''USD'',
      shipping_address = [(''city'', Some ''Springfield'')], billing_address = None,
      payment_method = Some ''cod'', payment_id = None, order_notes = None\<rparr>"


text \<open>
  A signed-in user with one address and one cart line, on the payment step, and a
  submission on 17 September 2025 whose \<open>getCartTotal\<close> is the subtotal and whose
  \<open>clearCart\<close> empties the cart.
\<close>

definition sample_world :: "address option \<Rightarrow> nat list \<Rightarrow> world" where
  "sample_world a ps =
     \<lparr>store = \<lparr>addresses = [sample_address 11 7 True], products = ps, orders = [],
               order_items = []\<rparr>,
      cartItems = [\<lparr>product_id = 5, quantity = 2,
                    product = \<lparr>prod_name = ''Yoga Mat Premium'', sku = Some ''YMP-006'',
                               price = 7999\<rparr>\<rparr>],
      view = \<lparr>currentStep = 2, selectedAddress = a, paymentMethod = ''cod'', loading = False,
              error = No_message, orderPlaced = False, newOrderId = None,
              paymentForm = \<lparr>cardNumber = [], expiryDate = [], cvv = [], cardName = []\<rparr>\<rparr>\<rparr>"

definition sample_submission :: submission where
  "sample_submission =
     \<lparr>user = 7, today = \<lparr>year = 2025, month = 9, day = 17\<rparr>, server_cast = cast_integer,
      order_uuid = 40, getCartTotal = cart_subtotal, clearCart = (\<lambda>c. Inr [])\<rparr>"

definition sample_stored_order :: order where
  "sample_stored_order =
     (orderData sample_submission (sample_world (Some (sample_address 11 7 True)) [5])
        (sample_address 11 7 True))\<lparr>order_number := Some ''ORD-20250917-0001''\<rparr>"

section \<open>Properties of the address book\<close>

text \<open>
  The candidate of the hook's own inner \<open>UPDATE\<close> has a false flag, so the nested run of
  the hook returns the table untouched.
\<close>

lemma nested_firing_changes_nothing:
  "ensure_single_default_address tbl (r\<lparr>is_default := Some False\<rparr>)
     = (tbl, r\<lparr>is_default := Some False\<rparr>)"
  by (simp add: ensure_single_default_address_def)

lemma filter_at_most_one:
  assumes "distinct (map f xs)"
    and "\<And>x y. x \<in> set xs \<Longrightarrow> y \<in> set xs \<Longrightarrow> P x \<Longrightarrow> P y \<Longrightarrow> f x = f y"
  shows "length (filter P xs) \<le> Suc 0"
  using assms
proof (induction xs)
  case Nil
  then show ?case by simp
next
  case (Cons a xs)
  show ?case
  proof (cases "P a")
    case True
    have "filter P xs = []"
    proof (rule ccontr)
      assume "filter P xs \<noteq> []"
      then obtain y where y: "y \<in> set xs" "P y"
        by (metis filter_False)
      with Cons.prems(2)[of a y] True have "f a = f y" by simp
      with y(1) Cons.prems(1) show False by auto
    qed
    then show ?thesis using True by simp
  next
    case False
    with Cons show ?thesis by simp
  qed
qed

lemma filter_at_most_one_eq:
  assumes "length (filter P xs) \<le> Suc 0" "x \<in> set xs" "y \<in> set xs" "P x" "P y"
  shows "x = y"
proof -
  have "x \<in> set (filter P xs)" "y \<in> set (filter P xs)" using assms by auto
  moreover obtain z where "filter P xs = [z]"
    using assms(1) \<open>x \<in> set (filter P xs)\<close>
    by (cases "filter P xs") (auto simp: length_Suc_conv)
  ultimately show ?thesis by simp
qed

lemma hook_ids: "map addr_id (fst (ensure_single_default_address db NEW)) = map addr_id db"
  by (simp add: ensure_single_default_address_def comp_def)

lemma hook_snd: "snd (ensure_single_default_address db NEW) = NEW"
  by (simp add: ensure_single_default_address_def)

lemma hook_no_default:
  "is_default NEW \<noteq> Some True \<Longrightarrow> ensure_single_default_address db NEW = (db, NEW)"
  by (simp add: ensure_single_default_address_def)

lemma in_default_rows:
  "r \<in> set (default_rows db u) \<longleftrightarrow> r \<in> set db \<and> user_id r = u \<and> is_default r = Some True"
  by (auto simp: default_rows_def)

lemma hook_default_rows_cases:
  assumes "x \<in> set (fst (ensure_single_default_address db NEW))"
    and "is_default x = Some True"
  shows "x \<in> set db \<and> (is_default NEW = Some True \<and> user_id x = user_id NEW \<longrightarrow> addr_id x = addr_id NEW)"
  using assms by (auto simp: ensure_single_default_address_def split: if_splits)

lemma insert_address_eq:
  "insert_address db NEW =
     (if addr_id NEW \<in> set (map addr_id db) then Inl Unique_violation
      else Inr (fst (ensure_single_default_address db NEW) @ [NEW]))"
proof -
  obtain H1 H2 where H: "ensure_single_default_address db NEW = (H1, H2)"
    by (cases "ensure_single_default_address db NEW")
  have "H2 = NEW" using hook_snd[of db NEW] H by simp
  moreover have "map addr_id H1 = map addr_id db" using hook_ids[of db NEW] H by simp
  then have "addr_id ` set H1 = addr_id ` set db" by (metis set_map)
  ultimately show ?thesis using H by (simp add: insert_address_def)
qed

lemma find_addr_id:
  "find (\<lambda>r. addr_id r = i) db = Some OLD \<Longrightarrow> OLD \<in> set db \<and> addr_id OLD = i"
  by (auto simp: find_Some_iff)

lemma find_addr_id_None:
  "find (\<lambda>r. addr_id r = i) db = None \<longleftrightarrow> i \<notin> set (map addr_id db)"
  by (auto simp: find_None_iff)

lemma update_address_eq:
  assumes "find (\<lambda>r. addr_id r = i) db = Some OLD"
  shows "update_address db i set_cols =
     map (\<lambda>r. if addr_id r = i then (set_cols OLD)\<lparr>addr_id := i, user_id := user_id OLD\<rparr> else r)
       (fst (ensure_single_default_address db
               ((set_cols OLD)\<lparr>addr_id := i, user_id := user_id OLD\<rparr>)))"
proof -
  let ?NEW = "(set_cols OLD)\<lparr>addr_id := i, user_id := user_id OLD\<rparr>"
  obtain H1 H2 where H: "ensure_single_default_address db ?NEW = (H1, H2)"
    by (cases "ensure_single_default_address db ?NEW")
  have "H2 = ?NEW" using hook_snd[of db ?NEW] H by simp
  moreover have "addr_id OLD = i" using find_addr_id[OF assms] by simp
  ultimately show ?thesis using H assms by (simp add: update_address_def)
qed

lemma update_address_ids: "map addr_id (update_address db i set_cols) = map addr_id db"
proof (cases "find (\<lambda>r. addr_id r = i) db")
  case None
  then show ?thesis by (simp add: update_address_def)
next
  case (Some OLD)
  let ?NEW = "(set_cols OLD)\<lparr>addr_id := i, user_id := user_id OLD\<rparr>"
  have "map addr_id (map (\<lambda>r. if addr_id r = i then ?NEW else r) xs) = map addr_id xs" for xs
    by (induction xs) auto
  then show ?thesis
    by (simp only: update_address_eq[OF Some] hook_ids)
qed

lemma update_address_default_true:
  assumes f: "find (\<lambda>r. addr_id r = i) db = Some OLD"
    and t: "is_default (set_cols OLD) = Some True"
  shows "update_address db i set_cols =
     map (\<lambda>r. if addr_id r = i then (set_cols OLD)\<lparr>addr_id := i, user_id := user_id OLD\<rparr>
               else if user_id r = user_id OLD then r\<lparr>is_default := Some False\<rparr> else r) db"
  using t by (simp add: update_address_eq[OF f] ensure_single_default_address_def)

lemma update_address_default_other:
  assumes f: "find (\<lambda>r. addr_id r = i) db = Some OLD"
    and t: "is_default (set_cols OLD) \<noteq> Some True"
  shows "update_address db i set_cols =
     map (\<lambda>r. if addr_id r = i then (set_cols OLD)\<lparr>addr_id := i, user_id := user_id OLD\<rparr>
               else r) db"
  using t by (simp add: update_address_eq[OF f] ensure_single_default_address_def)

lemma find_map_keeping_ids:
  assumes "\<And>r. addr_id (g r) = addr_id r"
  shows "find (\<lambda>r. addr_id r = i) (map g db) = map_option g (find (\<lambda>r. addr_id r = i) db)"
  using assms by (induction db) auto

text \<open>
  The invariant carried through every write: keys are distinct and every user has at most
  one default row. The hook alone does not give it; the primary key is needed to know that
  the rows the hook skips (\<open>id = NEW.id\<close>) are at most the written row itself.
\<close>

lemma single_default_insert:
  assumes d: "distinct (map addr_id db)"
    and s: "\<And>u. length (default_rows db u) \<le> Suc 0"
    and i: "insert_address db NEW = Inr db'"
  shows "distinct (map addr_id db') \<and> length (default_rows db' u) \<le> Suc 0"
proof -
  let ?H = "fst (ensure_single_default_address db NEW)"
  from i have fresh: "addr_id NEW \<notin> set (map addr_id db)" and db': "db' = ?H @ [NEW]"
    by (auto simp: insert_address_eq split: if_splits)
  have dist: "distinct (map addr_id db')"
    using d fresh by (simp add: db' hook_ids)
  have "addr_id x = addr_id y"
    if "x \<in> set db'" "y \<in> set db'"
      "user_id x = u \<and> is_default x = Some True" "user_id y = u \<and> is_default y = Some True" for x y
  proof -
    have old: "a = b" if "a \<in> set db" "b \<in> set db" "user_id a = u" "is_default a = Some True"
      "user_id b = u" "is_default b = Some True" for a b
      using filter_at_most_one_eq[OF s[of u, unfolded default_rows_def], of a b] that by simp
    from that fresh show ?thesis
      using hook_default_rows_cases[of x db NEW] hook_default_rows_cases[of y db NEW] old[of x y]
      by (auto simp: db')
  qed
  then have "length (default_rows db' u) \<le> Suc 0"
    unfolding default_rows_def by (rule filter_at_most_one[OF dist])
  with dist show ?thesis by simp
qed

lemma single_default_update:
  assumes d: "distinct (map addr_id db)"
    and s: "\<And>u. length (default_rows db u) \<le> Suc 0"
  shows "length (default_rows (update_address db i set_cols) u) \<le> Suc 0"
proof (cases "find (\<lambda>r. addr_id r = i) db")
  case None
  then show ?thesis using s by (simp add: update_address_def)
next
  case (Some OLD)
  let ?NEW = "(set_cols OLD)\<lparr>addr_id := i, user_id := user_id OLD\<rparr>"
  let ?H = "fst (ensure_single_default_address db ?NEW)"
  let ?db' = "update_address db i set_cols"
  have OLD: "OLD \<in> set db" "addr_id OLD = i" using find_addr_id[OF Some] by simp_all
  have dist: "distinct (map addr_id ?db')" using d by (simp add: update_address_ids)
  have old: "a = b" if "a \<in> set db" "b \<in> set db" "user_id a = u" "is_default a = Some True"
    "user_id b = u" "is_default b = Some True" for a b
    using filter_at_most_one_eq[OF s[of u, unfolded default_rows_def], of a b] that by simp
  have only: "r = OLD" if "r \<in> set db" "addr_id r = i" for r
    using that OLD d by (metis distinct_map inj_onD)
  have mem: "x = ?NEW \<or> (x \<in> set ?H \<and> addr_id x \<noteq> i)" if "x \<in> set ?db'" for x
    using that by (auto simp: update_address_eq[OF Some] split: if_splits)
  have "addr_id x = addr_id y"
    if "x \<in> set ?db'" "y \<in> set ?db'"
      "user_id x = u \<and> is_default x = Some True" "user_id y = u \<and> is_default y = Some True" for x y
    using mem[OF that(1)] mem[OF that(2)] that(3,4)
      hook_default_rows_cases[of x db ?NEW] hook_default_rows_cases[of y db ?NEW] old[of x y]
    by auto
  then show ?thesis
    unfolding default_rows_def by (rule filter_at_most_one[OF dist])
qed

lemma single_default_delete:
  assumes s: "length (default_rows db u) \<le> Suc 0"
  shows "length (default_rows (delete_address db i) u) \<le> Suc 0"
proof -
  have "length (default_rows (delete_address db i) u) \<le> length (default_rows db u)"
    unfolding default_rows_def delete_address_def
    by (induction db) auto
  with s show ?thesis by simp
qed

lemma commit_address_write_invariant:
  assumes d: "distinct (map addr_id db)"
    and s: "\<And>u. length (default_rows db u) \<le> Suc 0"
  shows "distinct (map addr_id (commit_address_write db w))
       \<and> (\<forall>u. length (default_rows (commit_address_write db w) u) \<le> Suc 0)"
proof (cases w)
  case (Insert NEW)
  then show ?thesis
    using single_default_insert[OF d s] d s
    by (cases "insert_address db NEW") auto
next
  case (Update i set_cols)
  then show ?thesis using single_default_update[OF d s] d by (simp add: update_address_ids)
next
  case (Delete i)
  then show ?thesis using single_default_delete[OF s] d
    by (simp add: delete_address_def distinct_map_filter)
qed

lemma run_invariant:
  assumes "distinct (map addr_id db)" "\<forall>u. length (default_rows db u) \<le> Suc 0"
  shows "distinct (map addr_id (foldl commit_address_write db ws))
       \<and> (\<forall>u. length (default_rows (foldl commit_address_write db ws) u) \<le> Suc 0)"
  using assms
proof (induction ws arbitrary: db)
  case Nil
  then show ?case by simp
next
  case (Cons w ws)
  have "distinct (map addr_id (commit_address_write db w))
       \<and> (\<forall>u. length (default_rows (commit_address_write db w) u) \<le> Suc 0)"
    using commit_address_write_invariant[of db w] Cons.prems by simp
  then show ?case using Cons.IH[of "commit_address_write db w"] by simp
qed

text \<open>
  Claim C1. Starting from the empty table, after any sequence of address writes (inserts,
  updates and deletes, with any \<open>is_default\<close> values, rejected inserts committing
  nothing), every user owns at most one row with \<open>is_default = true\<close>. Every prefix of a
  sequence is a sequence, so this holds after each committed write.
\<close>

theorem at_most_one_default_address:
  "length (default_rows (foldl commit_address_write [] ws) u) \<le> 1"
  using run_invariant[of "[]" ws] by (simp add: default_rows_def)

theorem at_most_one_default_address_witness:
  "length (default_rows
      (foldl commit_address_write []
         [Insert (sample_address 1 7 True), Insert (sample_address 2 7 True),
          Insert (sample_address 3 8 True),
          Update 1 (\<lambda>r. r\<lparr>is_default := Some True\<rparr>)]) 7) \<le> 1
   \<and> default_rows
      (foldl commit_address_write []
         [Insert (sample_address 1 7 True), Insert (sample_address 2 7 True),
          Insert (sample_address 3 8 True),
          Update 1 (\<lambda>r. r\<lparr>is_default := Some True\<rparr>)]) 7 = [sample_address 1 7 True]"
  using at_most_one_default_address
    [of "[Insert (sample_address 1 7 True), Insert (sample_address 2 7 True),
          Insert (sample_address 3 8 True),
          Update 1 (\<lambda>r. r\<lparr>is_default := Some True\<rparr>)]" 7]
  by (simp add: sample_address_def insert_address_def update_address_def
      ensure_single_default_address_def default_rows_def)

text \<open>
  Claim C6. Rows \<open>A\<close> and \<open>B\<close> of one owner, with keys \<open>a \<noteq> b\<close>: after setting
  \<open>is_default = true\<close> on \<open>A\<close> and then on \<open>B\<close>, row \<open>a\<close> is \<open>A\<close> with the flag false,
  row \<open>b\<close> is \<open>B\<close> with the flag true, and \<open>B\<close> is the owner's only default row. Nothing
  is assumed about the flags before.
\<close>

theorem default_moves_from_A_to_B:
  assumes d: "distinct (map addr_id db)"
    and A: "find (\<lambda>r. addr_id r = a) db = Some A"
    and B: "find (\<lambda>r. addr_id r = b) db = Some B"
    and u: "user_id A = user_id B"
    and ab: "a \<noteq> b"
  shows "find (\<lambda>r. addr_id r = a)
           (update_address (update_address db a (\<lambda>r. r\<lparr>is_default := Some True\<rparr>)) b
              (\<lambda>r. r\<lparr>is_default := Some True\<rparr>)) = Some (A\<lparr>is_default := Some False\<rparr>)
       \<and> find (\<lambda>r. addr_id r = b)
           (update_address (update_address db a (\<lambda>r. r\<lparr>is_default := Some True\<rparr>)) b
              (\<lambda>r. r\<lparr>is_default := Some True\<rparr>)) = Some (B\<lparr>is_default := Some True\<rparr>)
       \<and> default_rows
           (update_address (update_address db a (\<lambda>r. r\<lparr>is_default := Some True\<rparr>)) b
              (\<lambda>r. r\<lparr>is_default := Some True\<rparr>)) (user_id A) = [B\<lparr>is_default := Some True\<rparr>]"
proof -
  let ?set = "\<lambda>r::address. r\<lparr>is_default := Some True\<rparr>"
  let ?g1 = "\<lambda>r. if addr_id r = a then (?set A)\<lparr>addr_id := a, user_id := user_id A\<rparr>
               else if user_id r = user_id A then r\<lparr>is_default := Some False\<rparr> else r"
  let ?db1 = "update_address db a ?set"
  let ?B1 = "B\<lparr>is_default := Some False\<rparr>"
  let ?g2 = "\<lambda>r. if addr_id r = b then (?set ?B1)\<lparr>addr_id := b, user_id := user_id ?B1\<rparr>
               else if user_id r = user_id ?B1 then r\<lparr>is_default := Some False\<rparr> else r"
  let ?db2 = "update_address ?db1 b ?set"
  have idA: "addr_id A = a" "A \<in> set db" and idB: "addr_id B = b" "B \<in> set db"
    using find_addr_id[OF A] find_addr_id[OF B] by simp_all
  have db1: "?db1 = map ?g1 db"
    by (rule update_address_default_true[OF A]) simp
  have g1_ids: "addr_id (?g1 r) = addr_id r" for r by simp
  have A1: "find (\<lambda>r. addr_id r = a) ?db1 = Some (?set A)"
    using idA by (simp add: db1 find_map_keeping_ids[of ?g1, OF g1_ids] A)
  have B1: "find (\<lambda>r. addr_id r = b) ?db1 = Some ?B1"
    using idB ab u by (simp add: db1 find_map_keeping_ids[of ?g1, OF g1_ids] B)
  have db2: "?db2 = map ?g2 ?db1"
    by (rule update_address_default_true[OF B1]) simp
  have g2_ids: "addr_id (?g2 r) = addr_id r" for r by simp
  have A2: "find (\<lambda>r. addr_id r = a) ?db2 = Some (A\<lparr>is_default := Some False\<rparr>)"
    using idA idB ab u
    by (simp add: db2 find_map_keeping_ids[of ?g2, OF g2_ids] A1)
  have B2: "find (\<lambda>r. addr_id r = b) ?db2 = Some (?set B)"
    using idB by (simp add: db2 find_map_keeping_ids[of ?g2, OF g2_ids] B1)
  have dist: "distinct (map addr_id ?db2)" using d by (simp add: update_address_ids)
  have "addr_id x = addr_id y"
    if "x \<in> set ?db2" "y \<in> set ?db2"
      "user_id x = user_id A \<and> is_default x = Some True"
      "user_id y = user_id A \<and> is_default y = Some True" for x y
    using that u unfolding db2 by (auto split: if_splits)
  then have le: "length (default_rows ?db2 (user_id A)) \<le> Suc 0"
    unfolding default_rows_def by (rule filter_at_most_one[OF dist])
  have "?set B \<in> set (default_rows ?db2 (user_id A))"
    using find_addr_id[OF B2] u by (simp add: in_default_rows)
  with le have "default_rows ?db2 (user_id A) = [?set B]"
    by (cases "default_rows ?db2 (user_id A)") auto
  with A2 B2 show ?thesis by simp
qed

theorem default_moves_from_A_to_B_witness:
  "default_rows
     (update_address
        (update_address [sample_address 1 7 False, sample_address 2 7 False, sample_address 3 8 True]
           1 (\<lambda>r. r\<lparr>is_default := Some True\<rparr>))
        2 (\<lambda>r. r\<lparr>is_default := Some True\<rparr>)) 7 = [sample_address 2 7 True]
   \<and> find (\<lambda>r. addr_id r = 1)
     (update_address
        (update_address [sample_address 1 7 False, sample_address 2 7 False, sample_address 3 8 True]
           1 (\<lambda>r. r\<lparr>is_default := Some True\<rparr>))
        2 (\<lambda>r. r\<lparr>is_default := Some True\<rparr>)) = Some (sample_address 1 7 False)"
  using default_moves_from_A_to_B
    [of "[sample_address 1 7 False, sample_address 2 7 False, sample_address 3 8 True]"
        1 "sample_address 1 7 False" 2 "sample_address 2 7 False"]
  by (simp add: sample_address_def)

text \<open>
  Claim C7. A write whose candidate does not have \<open>is_default = true\<close> leaves every
  other row as it was: the hook returns the table unchanged, an insert appends the
  candidate to the unchanged table, an update replaces only the row written. A user's
  first address inserted this way leaves that user with no default row.
\<close>

theorem non_default_write_touches_no_sibling:
  "(is_default NEW \<noteq> Some True \<longrightarrow>
      ensure_single_default_address tbl NEW = (tbl, NEW)
      \<and> insert_address tbl NEW =
          (if addr_id NEW \<in> set (map addr_id tbl) then Inl Unique_violation
           else Inr (tbl @ [NEW])))
   \<and> (find (\<lambda>r. addr_id r = i) tbl = Some OLD \<and> is_default (set_cols OLD) \<noteq> Some True \<longrightarrow>
        update_address tbl i set_cols =
          map (\<lambda>r. if addr_id r = i
                    then (set_cols OLD)\<lparr>addr_id := i, user_id := user_id OLD\<rparr> else r) tbl)
   \<and> (is_default NEW \<noteq> Some True \<and> list_all (\<lambda>r. user_id r \<noteq> user_id NEW) tbl \<longrightarrow>
        default_rows (tbl @ [NEW]) (user_id NEW) = [])"
proof (intro conjI impI)
  assume n: "is_default NEW \<noteq> Some True"
  then show "ensure_single_default_address tbl NEW = (tbl, NEW)"
    by (rule hook_no_default)
  with n show "insert_address tbl NEW =
      (if addr_id NEW \<in> set (map addr_id tbl) then Inl Unique_violation else Inr (tbl @ [NEW]))"
    by (simp add: insert_address_eq)
next
  assume "find (\<lambda>r. addr_id r = i) tbl = Some OLD \<and> is_default (set_cols OLD) \<noteq> Some True"
  then show "update_address tbl i set_cols =
      map (\<lambda>r. if addr_id r = i
                then (set_cols OLD)\<lparr>addr_id := i, user_id := user_id OLD\<rparr> else r) tbl"
    using update_address_default_other[of i tbl OLD set_cols] by simp
next
  assume a: "is_default NEW \<noteq> Some True \<and> list_all (\<lambda>r. user_id r \<noteq> user_id NEW) tbl"
  then have "filter (\<lambda>r. user_id r = user_id NEW \<and> is_default r = Some True) tbl = []"
    by (auto simp: list_all_iff filter_empty_conv)
  with a show "default_rows (tbl @ [NEW]) (user_id NEW) = []"
    by (simp add: default_rows_def)
qed

theorem non_default_write_touches_no_sibling_witness:
  "insert_address [sample_address 1 7 True] (sample_address 2 7 False)
     = Inr [sample_address 1 7 True, sample_address 2 7 False]
   \<and> update_address [sample_address 1 7 True, sample_address 2 7 False] 2
        (\<lambda>r. r\<lparr>city := ''Shelbyville'', is_default := Some False\<rparr>)
     = [sample_address 1 7 True, (sample_address 2 7 False)\<lparr>city := ''Shelbyville''\<rparr>]
   \<and> default_rows ([sample_address 1 7 True] @ [sample_address 2 8 False]) 8 = []"
  using non_default_write_touches_no_sibling
    [of "sample_address 2 7 False" "[sample_address 1 7 True]"]
    non_default_write_touches_no_sibling
    [of _ "[sample_address 1 7 True, sample_address 2 7 False]" 2 "sample_address 2 7 False"
        "\<lambda>r. r\<lparr>city := ''Shelbyville'', is_default := Some False\<rparr>"]
    non_default_write_touches_no_sibling
    [of "sample_address 2 8 False" "[sample_address 1 7 True]"]
  by (simp add: sample_address_def)

text \<open>
  The page's \<open>setAsDefault\<close> reaches the same end: its first request clears the flag of
  every row of the user, and after the second the chosen row is the user's only default.
\<close>

lemma update_address_clear_flag:
  assumes d: "distinct (map addr_id tbl)"
  shows "update_address tbl i (\<lambda>r. r\<lparr>is_default := Some False\<rparr>)
       = map (\<lambda>r. if addr_id r = i then r\<lparr>is_default := Some False\<rparr> else r) tbl"
proof (cases "find (\<lambda>r. addr_id r = i) tbl")
  case None
  then have "\<forall>r\<in>set tbl. addr_id r \<noteq> i" by (auto simp: find_None_iff)
  then have "map (\<lambda>r. if addr_id r = i then r\<lparr>is_default := Some False\<rparr> else r) tbl = tbl"
    by (induction tbl) auto
  with None show ?thesis by (simp add: update_address_def)
next
  case (Some OLD)
  have OLD: "OLD \<in> set tbl" "addr_id OLD = i" using find_addr_id[OF Some] by simp_all
  have only: "r = OLD" if "r \<in> set tbl" "addr_id r = i" for r
    using that OLD d by (metis distinct_map inj_onD)
  have "(OLD\<lparr>is_default := Some False\<rparr>)\<lparr>addr_id := i, user_id := user_id OLD\<rparr>
      = OLD\<lparr>is_default := Some False\<rparr>"
    using OLD(2) by simp
  then have "update_address tbl i (\<lambda>r. r\<lparr>is_default := Some False\<rparr>)
      = map (\<lambda>r. if addr_id r = i then OLD\<lparr>is_default := Some False\<rparr> else r) tbl"
    using update_address_default_other[OF Some, of "\<lambda>r. r\<lparr>is_default := Some False\<rparr>"]
    by simp
  also have "\<dots> = map (\<lambda>r. if addr_id r = i then r\<lparr>is_default := Some False\<rparr> else r) tbl"
    using only by (intro map_cong) auto
  finally show ?thesis .
qed

lemma clear_flags_by_key:
  assumes "distinct (map addr_id tbl)"
  shows "foldl (\<lambda>t i. update_address t i (\<lambda>r. r\<lparr>is_default := Some False\<rparr>)) tbl ks
       = map (\<lambda>r. if addr_id r \<in> set ks then r\<lparr>is_default := Some False\<rparr> else r) tbl"
  using assms
proof (induction ks arbitrary: tbl)
  case Nil
  then show ?case by simp
next
  case (Cons k ks)
  let ?t = "update_address tbl k (\<lambda>r. r\<lparr>is_default := Some False\<rparr>)"
  have t: "?t = map (\<lambda>r. if addr_id r = k then r\<lparr>is_default := Some False\<rparr> else r) tbl"
    by (rule update_address_clear_flag[OF Cons.prems])
  have "distinct (map addr_id ?t)" using Cons.prems by (simp add: update_address_ids)
  from Cons.IH[OF this] show ?case
    by (simp add: t comp_def)
qed

lemma clear_defaults_of_user_eq:
  assumes "distinct (map addr_id tbl)"
  shows "clear_defaults_of_user tbl uid
       = map (\<lambda>r. if user_id r = uid then r\<lparr>is_default := Some False\<rparr> else r) tbl"
proof -
  have "addr_id r \<in> set (map addr_id (filter (\<lambda>r. user_id r = uid) tbl)) \<longleftrightarrow> user_id r = uid"
    if "r \<in> set tbl" for r
  proof
    assume "addr_id r \<in> set (map addr_id (filter (\<lambda>r. user_id r = uid) tbl))"
    then obtain r' where r': "r' \<in> set tbl" "user_id r' = uid" "addr_id r' = addr_id r" by auto
    with that assms have "r' = r" by (metis distinct_map inj_onD)
    with r' show "user_id r = uid" by simp
  next
    assume "user_id r = uid"
    with that show "addr_id r \<in> set (map addr_id (filter (\<lambda>r. user_id r = uid) tbl))" by auto
  qed
  then show ?thesis
    unfolding clear_defaults_of_user_def clear_flags_by_key[OF assms]
    by (intro map_cong) auto
qed

lemma setAsDefault_leaves_one_default:
  assumes d: "distinct (map addr_id tbl)"
    and B: "find (\<lambda>r. addr_id r = b) tbl = Some B"
    and u: "user_id B = uid"
  shows "default_rows (fst (setAsDefault uid tbl b)) uid = [B\<lparr>is_default := Some True\<rparr>]
       \<and> snd (setAsDefault uid tbl b) = ''Default address updated successfully!''"
proof -
  let ?clear = "\<lambda>r. if user_id r = uid then r\<lparr>is_default := Some False\<rparr> else r"
  let ?t1 = "clear_defaults_of_user tbl uid"
  let ?t2 = "update_address ?t1 b (\<lambda>r. r\<lparr>is_default := Some True\<rparr>)"
  have t1: "?t1 = map ?clear tbl" by (rule clear_defaults_of_user_eq[OF d])
  have ids: "addr_id (?clear r) = addr_id r" for r by simp
  have B1: "find (\<lambda>r. addr_id r = b) ?t1 = Some (B\<lparr>is_default := Some False\<rparr>)"
    using u by (simp add: t1 find_map_keeping_ids[of ?clear, OF ids] B)
  have idB: "addr_id B = b" using find_addr_id[OF B] by simp
  have t2: "?t2 = map (\<lambda>r. if addr_id r = b then B\<lparr>is_default := Some True\<rparr>
                        else if user_id r = uid then r\<lparr>is_default := Some False\<rparr> else r) ?t1"
    using update_address_default_true[OF B1, of "\<lambda>r. r\<lparr>is_default := Some True\<rparr>"] idB u
    by simp
  have "map addr_id (map ?clear xs) = map addr_id xs" for xs by (induction xs) auto
  then have "map addr_id ?t2 = map addr_id tbl" by (simp only: update_address_ids t1)
  then have dist: "distinct (map addr_id ?t2)" using d by simp
  let ?h = "\<lambda>r. if addr_id r = b then B\<lparr>is_default := Some True\<rparr> else ?clear r"
  have mm: "map (\<lambda>r. if addr_id r = b then B\<lparr>is_default := Some True\<rparr>
                        else if user_id r = uid then r\<lparr>is_default := Some False\<rparr> else r)
               (map ?clear xs) = map ?h xs" for xs
    by (induction xs) auto
  have t2': "?t2 = map ?h tbl"
    using t2 by (simp only: t1 mm)
  have mem: "x = B\<lparr>is_default := Some True\<rparr> \<or> user_id x \<noteq> uid \<or> is_default x \<noteq> Some True"
    if "x \<in> set ?t2" for x
  proof -
    from that obtain r where "r \<in> set tbl" "x = ?h r" unfolding t2' by auto
    then show ?thesis by (cases "addr_id r = b"; cases "user_id r = uid") simp_all
  qed
  have "addr_id x = addr_id y"
    if "x \<in> set ?t2" "y \<in> set ?t2" "user_id x = uid \<and> is_default x = Some True"
      "user_id y = uid \<and> is_default y = Some True" for x y
    using mem[OF that(1)] mem[OF that(2)] that(3,4) by blast
  then have le: "length (default_rows ?t2 uid) \<le> Suc 0"
    unfolding default_rows_def by (rule filter_at_most_one[OF dist])
  have hid: "addr_id (?h r) = addr_id r" for r using idB by simp
  have "find (\<lambda>r. addr_id r = b) ?t2 = Some (B\<lparr>is_default := Some True\<rparr>)"
    using idB by (simp add: t2' find_map_keeping_ids[of ?h, OF hid] B)
  then have "B\<lparr>is_default := Some True\<rparr> \<in> set (default_rows ?t2 uid)"
    using find_addr_id[of b ?t2] u by (simp add: in_default_rows)
  with le have "default_rows ?t2 uid = [B\<lparr>is_default := Some True\<rparr>]"
    by (cases "default_rows ?t2 uid") auto
  then show ?thesis by (simp add: setAsDefault_def)
qed

section \<open>Properties of the order numbers\<close>


























lemma cast_all_Inr_iff:
  "cast_all cast_int ss = Inr vs \<longleftrightarrow> map cast_int ss = map Inr vs"
proof (induction ss arbitrary: vs)
  case Nil
  then show ?case by auto
next
  case (Cons s ss)
  show ?case
  proof (cases "cast_int s")
    case (Inl e)
    then show ?thesis by (cases vs) auto
  next
    case (Inr v)
    show ?thesis
    proof (cases "cast_all cast_int ss")
      case (Inl e)
      with Cons[of "tl vs"] Inr show ?thesis by (cases vs) auto
    next
      case r: (Inr ws)
      with Cons[of ws] Cons[of "tl vs"] Inr show ?thesis by (cases vs) auto
    qed
  qed
qed

lemma cast_all_failure:
  assumes "s \<in> set ss" "cast_int s = Inl e"
  shows "\<exists>e'. cast_all cast_int ss = Inl e'"
  using assms by (induction ss) (auto split: sum.splits)

lemma sql_max_eq: "sql_max vs = (if vs = [] then None else Some (Max (set vs)))"
  by (cases vs) (simp_all add: Max.set_eq_fold[symmetric])

lemma coalesce_max:
  "(case sql_max vs of None \<Rightarrow> 0 | Some v \<Rightarrow> v) = (if vs = [] then 0 else Max (set vs))"
  by (simp add: sql_max_eq)







lemma insert_order_Inr:
  assumes "insert_order cast_int s now rows NEW = Inr (rows', r)"
  shows "rows' = rows @ [r] \<and> order_number r \<notin> set (map order_number rows)
       \<and> order_number r \<noteq> None \<and> ord_id r \<notin> set (map ord_id rows)
       \<and> may_insert_order s r"
  using assms by (auto simp: insert_order_def split: sum.splits if_splits)

lemma replicate_numeral: "replicate (numeral v) x = x # replicate (numeral v - 1) x"
  by (simp add: numeral_eq_Suc)

lemmas text_eval =
  day_number_def order_prefix_def to_char_YYYYMMDD_def zero_padded_def lpad_def
  nat_to_text.simps digit_char_def replicate_numeral like_prefix_def substring_from_def
  int_to_text_def

lemmas cast_eval =
  cast_integer_def is_space_def is_digit_def digits_value_def digit_value_def Let_def








text \<open>
  Claim C3. An order inserted with a non-empty order number passes the hook unchanged,
  whatever rows the hook is given, and if the insert commits (the insert policy admitting
  the row, its key and number being unused) the stored row is the candidate itself.
\<close>

theorem preset_order_number_is_kept:
  assumes "order_number NEW = Some n" and "n \<noteq> []"
  shows "set_order_number cast_int now rs NEW = Inr NEW
       \<and> insert_order cast_int s now rows NEW =
           (if \<not> may_insert_order s NEW then Inl Insufficient_privilege
            else if ord_id NEW \<in> set (map ord_id rows) \<or> Some n \<in> set (map order_number rows)
            then Inl Unique_violation else Inr (rows @ [NEW], NEW))"
  using assms by (simp add: set_order_number_def insert_order_def)

theorem preset_order_number_is_kept_witness:
  "insert_order cast_integer (Authenticated 7) \<lparr>year = 2025, month = 9, day = 17\<rparr>
       [sample_order 1 (Some ''ORD-20250917-0001'')]
       (sample_order 2 (Some ''ORD-20250101-0007''))
     = Inr ([sample_order 1 (Some ''ORD-20250917-0001''),
             sample_order 2 (Some ''ORD-20250101-0007'')],
            sample_order 2 (Some ''ORD-20250101-0007''))"
  using preset_order_number_is_kept
    [where NEW = "sample_order 2 (Some ''ORD-20250101-0007'')" and n = "''ORD-20250101-0007''"
       and cast_int = cast_integer and s = "Authenticated 7"
       and now = "\<lparr>year = 2025, month = 9, day = 17\<rparr>"
       and rows = "[sample_order 1 (Some ''ORD-20250917-0001'')]"]
  by (simp add: sample_order_def may_insert_order_def)

text \<open>
  The guarded hook is the unguarded one behind the test for a null or empty order number.
  Without the guard a given number is replaced.
\<close>

lemma set_order_number_guard:
  "set_order_number cast_int now rows NEW =
     (if order_number NEW = None \<or> order_number NEW = Some []
      then set_order_number_unguarded cast_int now rows NEW else Inr NEW)"
  by (simp add: set_order_number_def set_order_number_unguarded_def)

lemma unguarded_hook_overwrites:
  "set_order_number_unguarded cast_integer \<lparr>year = 2025, month = 9, day = 17\<rparr> []
     (sample_order 2 (Some ''ORD-20250101-0007''))
   = Inr (sample_order 2 (Some ''ORD-20250917-0001''))"
  by (simp add: set_order_number_unguarded_def next_suffix_def todays_suffixes_def
      todays_numbers_def sample_order_def text_eval)

text \<open>
  Claim C4, amended. For an insert without order number, whatever the server's cast: if
  the suffix of every order with today's prefix that the inserting session can read casts
  to an integer below \<open>2147483647\<close>, the allocator completes with today's prefix followed by
  the greatest such integer plus one (\<open>1\<close> when the session reads no order with the
  prefix), padded or cut to four characters; orders without the prefix, and orders the
  session cannot read, are not looked at. If some readable order with today's prefix has
  a suffix the cast rejects, the allocator raises and the insert is rejected.
\<close>

theorem allocator_completes_when_suffixes_parse:
  assumes absent: "order_number NEW = None \<or> order_number NEW = Some []"
  shows "(map cast_int (todays_suffixes now (readable_orders s rows)) = map Inr vs
            \<and> list_all (\<lambda>v. v < 2147483647) vs \<longrightarrow>
          set_order_number cast_int now (readable_orders s rows) NEW =
            Inr (NEW\<lparr>order_number :=
                   Some (order_prefix now @
                         lpad (int_to_text ((if vs = [] then 0 else Max (set vs)) + 1)) 4 CHR ''0'')\<rparr>))
       \<and> (x \<in> set (todays_suffixes now (readable_orders s rows)) \<and> cast_int x = Inl e \<longrightarrow>
            (\<exists>e'. set_order_number cast_int now (readable_orders s rows) NEW = Inl e'
                 \<and> insert_order cast_int s now rows NEW = Inl e'))"
proof (intro conjI impI)
  let ?rs = "readable_orders s rows"
  assume a: "map cast_int (todays_suffixes now ?rs) = map Inr vs
            \<and> list_all (\<lambda>v. v < 2147483647) vs"
  then have cast: "cast_all cast_int (todays_suffixes now ?rs) = Inr vs"
    by (simp add: cast_all_Inr_iff)
  have "(if vs = [] then 0 else Max (set vs)) < 2147483647"
  proof (cases "vs = []")
    case True
    then show ?thesis by simp
  next
    case False
    then have "Max (set vs) \<in> set vs" by (intro Max_in) auto
    with a False show ?thesis by (auto simp: list_all_iff)
  qed
  then have "next_suffix cast_int now ?rs = Inr ((if vs = [] then 0 else Max (set vs)) + 1)"
    by (simp add: next_suffix_def cast coalesce_max Let_def)
  with absent show "set_order_number cast_int now ?rs NEW =
            Inr (NEW\<lparr>order_number :=
                   Some (order_prefix now @
                         lpad (int_to_text ((if vs = [] then 0 else Max (set vs)) + 1)) 4 CHR ''0'')\<rparr>)"
    by (auto simp: set_order_number_def)
next
  let ?rs = "readable_orders s rows"
  assume "x \<in> set (todays_suffixes now ?rs) \<and> cast_int x = Inl e"
  then obtain e' where "cast_all cast_int (todays_suffixes now ?rs) = Inl e'"
    using cast_all_failure by blast
  then have "next_suffix cast_int now ?rs = Inl e'" by (simp add: next_suffix_def)
  with absent have "set_order_number cast_int now ?rs NEW = Inl e'"
    by (auto simp: set_order_number_def)
  then show "\<exists>e'. set_order_number cast_int now ?rs NEW = Inl e'
      \<and> insert_order cast_int s now rows NEW = Inl e'"
    by (simp add: insert_order_def)
qed

theorem allocator_completes_when_suffixes_parse_witness:
  "set_order_number cast_integer \<lparr>year = 2025, month = 9, day = 17\<rparr>
       (readable_orders (Authenticated 7)
          [sample_order 1 (Some ''ORD-20250917-0003''),
           sample_order 2 (Some ''ORD-20250916-wxyz''), sample_order 3 (Some ''A-17''),
           (sample_order 5 (Some ''ORD-20250917-wxyz''))\<lparr>order_user_id := 8\<rparr>])
       (sample_order 4 None)
     = Inr (sample_order 4 (Some ''ORD-20250917-0004''))
   \<and> set_order_number cast_integer \<lparr>year = 2025, month = 9, day = 17\<rparr>
       (readable_orders (Authenticated 7)
          [sample_order 1 (Some ''ORD-20250917-0003''),
           sample_order 2 (Some ''ORD-20250917-wxyz'')])
       (sample_order 4 None)
     = Inl Invalid_text_representation"
proof -
  let ?d = "\<lparr>year = 2025, month = 9, day = 17\<rparr>"
  let ?s = "Authenticated 7"
  let ?rows = "[sample_order 1 (Some ''ORD-20250917-0003''),
                sample_order 2 (Some ''ORD-20250916-wxyz''), sample_order 3 (Some ''A-17''),
                (sample_order 5 (Some ''ORD-20250917-wxyz''))\<lparr>order_user_id := 8\<rparr>]"
  let ?bad = "[sample_order 1 (Some ''ORD-20250917-0003''),
               sample_order 2 (Some ''ORD-20250917-wxyz'')]"
  have s: "todays_suffixes ?d (readable_orders ?s ?rows) = [''0003'']"
    by (simp add: todays_suffixes_def todays_numbers_def readable_orders_def sample_order_def
        text_eval)
  have c: "cast_integer ''0003'' = Inr 3" by (simp add: cast_eval)
  have b: "''wxyz'' \<in> set (todays_suffixes ?d (readable_orders ?s ?bad))"
    by (simp add: todays_suffixes_def todays_numbers_def readable_orders_def sample_order_def
        text_eval)
  have cb: "cast_integer ''wxyz'' = Inl Invalid_text_representation" by (simp add: cast_eval)
  have absent: "order_number (sample_order 4 None) = None
      \<or> order_number (sample_order 4 None) = Some []"
    by (simp add: sample_order_def)
  have parsed: "map cast_integer (todays_suffixes ?d (readable_orders ?s ?rows)) = map Inr [3]
      \<and> list_all (\<lambda>v. v < 2147483647) [3::int]"
    unfolding s by (simp add: c)
  have "set_order_number cast_integer ?d (readable_orders ?s ?rows) (sample_order 4 None)
      = Inr ((sample_order 4 None)\<lparr>order_number :=
               Some (order_prefix ?d @ lpad (int_to_text ((if [3::int] = [] then 0 else Max (set [3])) + 1)) 4 CHR ''0'')\<rparr>)"
    using allocator_completes_when_suffixes_parse
      [OF absent, where cast_int = cast_integer and now = ?d and s = ?s and rows = ?rows
         and vs = "[3]"] parsed
    by blast
  then have "set_order_number cast_integer ?d (readable_orders ?s ?rows) (sample_order 4 None)
      = Inr (sample_order 4 (Some ''ORD-20250917-0004''))"
    by (simp add: sample_order_def text_eval)
  moreover have "\<exists>e'. set_order_number cast_integer ?d (readable_orders ?s ?bad)
          (sample_order 4 None) = Inl e'
      \<and> insert_order cast_integer ?s ?d ?bad (sample_order 4 None) = Inl e'"
    using allocator_completes_when_suffixes_parse
      [OF absent, where cast_int = cast_integer and now = ?d and s = ?s and rows = ?bad
         and x = "''wxyz''" and e = Invalid_text_representation] b cb
    by blast
  then have "set_order_number cast_integer ?d (readable_orders ?s ?bad) (sample_order 4 None)
      = Inl Invalid_text_representation"
    by (auto simp: set_order_number_def next_suffix_def todays_suffixes_def todays_numbers_def
        readable_orders_def sample_order_def text_eval c cb)
  ultimately show ?thesis by simp
qed

text \<open>
  The claim as stated fails: one order of the day, the inserting user's own, with the
  suffix \<open>abcd\<close> or with no suffix at all, and the user's next insert without order number
  is rejected by the cast. (Every version of the server rejects both texts.)
\<close>

theorem unparseable_suffix_counterexample:
  "insert_order cast_integer (Authenticated 7) \<lparr>year = 2025, month = 9, day = 17\<rparr>
       [sample_order 1 (Some ''ORD-20250917-abcd'')] (sample_order 2 None)
     = Inl Invalid_text_representation
   \<and> insert_order cast_integer (Authenticated 7) \<lparr>year = 2025, month = 9, day = 17\<rparr>
       [sample_order 1 (Some ''ORD-20250917-'')] (sample_order 2 None)
     = Inl Invalid_text_representation"
  by (simp add: insert_order_def set_order_number_def next_suffix_def todays_suffixes_def
      todays_numbers_def readable_orders_def sample_order_def text_eval cast_eval)

lemma commit_order_insert_distinct:
  assumes "distinct (map order_number rows)"
  shows "distinct (map order_number (commit_order_insert cast_int rows req))"
proof (cases "insert_order cast_int (fst req) (fst (snd req)) rows (snd (snd req))")
  case (Inl e)
  with assms show ?thesis by (simp add: commit_order_insert_def)
next
  case (Inr res)
  then have "insert_order cast_int (fst req) (fst (snd req)) rows (snd (snd req))
      = Inr (fst res, snd res)" by simp
  from insert_order_Inr[OF this] assms Inr show ?thesis
    by (simp add: commit_order_insert_def)
qed

lemma committed_orders_distinct:
  "distinct (map order_number rows) \<Longrightarrow>
   distinct (map order_number (foldl (commit_order_insert cast_int) rows reqs))"
  by (induction reqs arbitrary: rows) (simp_all add: commit_order_insert_distinct)

text \<open>
  Claim C5. The order numbers of the table reached from the empty one by any sequence of
  insert requests, of whatever sessions, are pairwise distinct; an insert carrying a
  number that exists is rejected, and whenever an insert commits, the number stored
  (given or allocated) was not in the table.
\<close>

theorem order_numbers_are_distinct:
  "distinct (map order_number (foldl (commit_order_insert cast_int) [] reqs))
   \<and> (order_number NEW = Some n \<and> n \<noteq> [] \<and> Some n \<in> set (map order_number rows) \<longrightarrow>
        insert_order cast_int s now rows NEW =
          Inl (if may_insert_order s NEW then Unique_violation else Insufficient_privilege))
   \<and> (insert_order cast_int s now rows NEW = Inr (rows', r) \<longrightarrow>
        rows' = rows @ [r] \<and> order_number r \<notin> set (map order_number rows))"
proof (intro conjI impI)
  show "distinct (map order_number (foldl (commit_order_insert cast_int) [] reqs))"
    by (rule committed_orders_distinct) simp
next
  assume "order_number NEW = Some n \<and> n \<noteq> [] \<and> Some n \<in> set (map order_number rows)"
  then show "insert_order cast_int s now rows NEW =
      Inl (if may_insert_order s NEW then Unique_violation else Insufficient_privilege)"
    by (simp add: set_order_number_def insert_order_def)
next
  assume "insert_order cast_int s now rows NEW = Inr (rows', r)"
  from insert_order_Inr[OF this] show "rows' = rows @ [r]"
    and "order_number r \<notin> set (map order_number rows)" by simp_all
qed

theorem order_numbers_are_distinct_witness:
  "distinct (map order_number
      (foldl (commit_order_insert cast_integer) []
         [(Authenticated 7, \<lparr>year = 2025, month = 9, day = 17\<rparr>, sample_order 1 None),
          (Authenticated 7, \<lparr>year = 2025, month = 9, day = 17\<rparr>,
           sample_order 2 (Some ''ORD-20250917-0001'')),
          (Authenticated 8, \<lparr>year = 2025, month = 9, day = 17\<rparr>,
           (sample_order 3 None)\<lparr>order_user_id := 8\<rparr>)]))
   \<and> insert_order cast_integer (Authenticated 7) \<lparr>year = 2025, month = 9, day = 17\<rparr>
        [sample_order 1 (Some ''ORD-20250917-0001'')]
        (sample_order 2 (Some ''ORD-20250917-0001'')) = Inl Unique_violation"
  using order_numbers_are_distinct
    [where cast_int = cast_integer
       and reqs = "[(Authenticated 7, \<lparr>year = 2025, month = 9, day = 17\<rparr>, sample_order 1 None),
          (Authenticated 7, \<lparr>year = 2025, month = 9, day = 17\<rparr>,
           sample_order 2 (Some ''ORD-20250917-0001'')),
          (Authenticated 8, \<lparr>year = 2025, month = 9, day = 17\<rparr>,
           (sample_order 3 None)\<lparr>order_user_id := 8\<rparr>)]"
       and NEW = "sample_order 2 (Some ''ORD-20250917-0001'')" and n = "''ORD-20250917-0001''"
       and rows = "[sample_order 1 (Some ''ORD-20250917-0001'')]"
       and s = "Authenticated 7"
       and now = "\<lparr>year = 2025, month = 9, day = 17\<rparr>"]
  by (simp add: sample_order_def may_insert_order_def)

section \<open>Properties of the checkout\<close>

text \<open>
  Address writes change the table \<open>addresses\<close> and nothing else. A submission, case by
  case: the world it leaves.
\<close>

lemma address_writes_orders: "orders (address_writes d ws) = orders d"
  by (simp add: address_writes_def)

lemma orderData_view:
  "orderData env (w\<lparr>view := (view w)\<lparr>loading := l, error := m\<rparr>\<rparr>) a = orderData env w a"
  by (simp add: orderData_def)

lemma card_details_missing_view:
  "card_details_missing (p\<lparr>loading := l, error := m\<rparr>) = card_details_missing p"
  by (simp add: card_details_missing_def)

lemma set_order_number_other_columns:
  assumes "set_order_number cast_int now rows NEW = Inr r"
  shows "r = NEW\<lparr>order_number := order_number r\<rparr>"
  using assms by (auto simp: set_order_number_def split: sum.splits if_splits)

lemma insert_order_stored_row:
  assumes "insert_order cast_int s now rows NEW = Inr (rows', r)"
  shows "rows' = rows @ [r] \<and> r = NEW\<lparr>order_number := order_number r\<rparr>"
proof -
  from assms obtain r' where h: "set_order_number cast_int now (readable_orders s rows) NEW = Inr r'"
    by (cases "set_order_number cast_int now (readable_orders s rows) NEW")
       (auto simp: insert_order_def)
  with assms have "rows' = rows @ [r]" "r' = r"
    by (auto simp: insert_order_def split: if_splits)
  with set_order_number_other_columns[OF h] show ?thesis by simp
qed

lemma insert_order_items_Inr:
  "insert_order_items s d items = Inr d2 \<Longrightarrow> d2 = d\<lparr>order_items := order_items d @ items\<rparr>"
  by (auto simp: insert_order_items_def split: if_splits)

lemma orders_request_Inr:
  assumes "orders_request env d NEW = Inr (rows', r)"
  shows "rows' = orders d @ [r] \<and> r = NEW\<lparr>order_number := order_number r\<rparr>
       \<and> order_fits NEW \<and> order_user_id r = user env"
proof -
  from assms have f: "order_fits NEW"
    and i: "insert_order (server_cast env) (Authenticated (user env)) (today env) (orders d) NEW
              = Inr (rows', r)"
    by (auto simp: orders_request_def split: if_splits)
  from insert_order_Inr[OF i] have "order_user_id r = user env"
    by (simp add: may_insert_order_def)
  with insert_order_stored_row[OF i] f show ?thesis by simp
qed

lemma order_items_request_Inr:
  "order_items_request env d items = Inr d2 \<Longrightarrow>
   d2 = d\<lparr>order_items := order_items d @ items\<rparr> \<and> list_all order_item_fits items"
  by (auto simp: order_items_request_def split: if_splits dest: insert_order_items_Inr)

lemma place_order_cases:
  "place_order env w =
     (case selectedAddress (view w) of
        None \<Rightarrow> (w, Inl Type_error)
      | Some a \<Rightarrow>
          (case orders_request env (store w) (orderData env w a) of
             Inl e \<Rightarrow> (w, Inl e)
           | Inr res \<Rightarrow>
               (case order_items_request env ((store w)\<lparr>orders := fst res\<rparr>)
                       (orderItems (snd res) (cartItems w)) of
                  Inl e \<Rightarrow> (w\<lparr>store := (store w)\<lparr>orders := fst res\<rparr>\<rparr>, Inl e)
                | Inr d2 \<Rightarrow>
                    (case clearCart env (cartItems w) of
                       Inl e \<Rightarrow> (w\<lparr>store := d2\<rparr>, Inl e)
                     | Inr c \<Rightarrow> (w\<lparr>store := d2, cartItems := c\<rparr>, Inr (snd res))))))"
  by (simp add: place_order_def Let_def split: option.splits sum.splits prod.splits)

lemma handlePaymentSubmit_cases:
  "handlePaymentSubmit env w =
     (if card_details_missing (view w)
      then w\<lparr>view := (view w)\<lparr>loading := False, error := Fill_in_card_details\<rparr>\<rparr>
      else
       (case selectedAddress (view w) of
          None \<Rightarrow> w\<lparr>view := (view w)\<lparr>loading := False, error := Error_placing_order Type_error\<rparr>\<rparr>
        | Some a \<Rightarrow>
            (case orders_request env (store w) (orderData env w a) of
               Inl e \<Rightarrow> w\<lparr>view := (view w)\<lparr>loading := False, error := Error_placing_order e\<rparr>\<rparr>
             | Inr res \<Rightarrow>
                 (case order_items_request env ((store w)\<lparr>orders := fst res\<rparr>)
                         (orderItems (snd res) (cartItems w)) of
                    Inl e \<Rightarrow>
                      w\<lparr>store := (store w)\<lparr>orders := fst res\<rparr>,
                        view := (view w)\<lparr>loading := False, error := Error_placing_order e\<rparr>\<rparr>
                  | Inr d2 \<Rightarrow>
                      (case clearCart env (cartItems w) of
                         Inl e \<Rightarrow>
                           w\<lparr>store := d2,
                             view := (view w)\<lparr>loading := False, error := Error_placing_order e\<rparr>\<rparr>
                       | Inr c \<Rightarrow>
                           w\<lparr>store := d2, cartItems := c,
                             view := (view w)\<lparr>loading := False, error := No_message,
                                       newOrderId := order_number (snd res),
                                       orderPlaced := True, currentStep := 3\<rparr>\<rparr>)))))"
  by (simp add: handlePaymentSubmit_def Let_def card_details_missing_view place_order_cases
      orderData_view split: option.splits sum.splits)

lemma sample_orders_request:
  "orders_request sample_submission (store (sample_world (Some (sample_address 11 7 True)) ps))
     (orderData sample_submission (sample_world (Some (sample_address 11 7 True)) ps)
        (sample_address 11 7 True))
   = Inr ([sample_stored_order], sample_stored_order)"
  by (simp add: sample_stored_order_def orders_request_def order_fits_def fits_decimal_10_2_def
      to_cents_def cart_subtotal_def insert_order_def set_order_number_def next_suffix_def
      todays_suffixes_def todays_numbers_def readable_orders_def may_insert_order_def
      orderData_def sample_world_def sample_submission_def text_eval)

lemma sample_card_details: "\<not> card_details_missing (view (sample_world a ps))"
  by (simp add: card_details_missing_def sample_world_def)

lemma sample_selected:
  "selectedAddress (view (sample_world (Some a) ps)) = Some a"
  by (simp add: sample_world_def)

lemma sample_clear_cart: "clearCart sample_submission c = Inr []"
  by (simp add: sample_submission_def)

lemma sample_order_items:
  "orderItems sample_stored_order (cartItems (sample_world a ps))
     = [\<lparr>order_id = 40, item_product_id = 5, product_name = ''Yoga Mat Premium'',
         product_sku = Some ''YMP-006'', item_quantity = 2, unit_price = 7999,
         total_price = 15998\<rparr>]"
  by (simp add: orderItems_def sample_world_def sample_stored_order_def orderData_def
      sample_submission_def)

lemma sample_order_items_request:
  "order_items_request sample_submission
     ((store (sample_world (Some (sample_address 11 7 True)) ps))\<lparr>orders := [sample_stored_order]\<rparr>)
     (orderItems sample_stored_order (cartItems (sample_world (Some (sample_address 11 7 True)) ps)))
   = (if 5 \<in> set ps
      then Inr ((store (sample_world (Some (sample_address 11 7 True)) ps))
                 \<lparr>orders := [sample_stored_order],
                  order_items := [\<lparr>order_id = 40, item_product_id = 5,
                     product_name = ''Yoga Mat Premium'', product_sku = Some ''YMP-006'',
                     item_quantity = 2, unit_price = 7999, total_price = 15998\<rparr>]\<rparr>)
      else Inl Foreign_key_violation)"
  unfolding sample_order_items
  by (simp add: order_items_request_def order_item_fits_def fits_integer_def
        fits_decimal_10_2_def insert_order_items_def may_insert_order_item_def)
     (simp add: sample_world_def sample_stored_order_def orderData_def sample_submission_def)

lemma sample_amounts:
  "cart_subtotal (cartItems (sample_world a ps)) = 15998
   \<and> tax_amount sample_stored_order = Some 1280
   \<and> total_amount sample_stored_order = 17278"
  by (simp add: cart_subtotal_def sample_world_def sample_stored_order_def orderData_def
      sample_submission_def to_cents_def)

text \<open>
  Rounding to the cent moves an amount by at most half a cent; eight and a hundred and eight
  hundredths of a whole number of cents are never half-way between two cents.
\<close>

lemma to_cents_near: "x mod 100 \<noteq> 50 \<Longrightarrow> \<bar>100 * to_cents x - x\<bar> < 50"
proof -
  assume tie: "x mod 100 \<noteq> 50"
  show ?thesis
  proof (cases "0 \<le> x")
    case True
    define q where "q = (x + 50) div 100"
    define m where "m = (x + 50) mod 100"
    have e: "x + 50 = 100 * q + m" by (simp add: q_def m_def)
    have b: "0 \<le> m" "m < 100" by (simp_all add: m_def)
    have "m \<noteq> 0"
    proof
      assume "m = 0"
      then have "(x + 50 - 50) mod 100 = (0 - 50) mod 100"
        unfolding m_def by (metis mod_diff_left_eq)
      with tie show False by simp
    qed
    with e b have "\<bar>100 * q - x\<bar> < 50" by linarith
    with True show ?thesis by (simp add: to_cents_def q_def)
  next
    case False
    define q where "q = (50 - x) div 100"
    define m where "m = (50 - x) mod 100"
    have e: "50 - x = 100 * q + m" by (simp add: q_def m_def)
    have b: "0 \<le> m" "m < 100" by (simp_all add: m_def)
    have "m \<noteq> 0"
    proof
      assume "m = 0"
      then have "(50 - (50 - x)) mod 100 = (50 - 0) mod 100"
        unfolding m_def by (metis mod_diff_right_eq)
      with tie show False by simp
    qed
    with e b have "\<bar>100 * (- q) - x\<bar> < 50" by linarith
    with False show ?thesis by (simp add: to_cents_def q_def)
  qed
qed

lemma no_tie: "(8 * (S::int)) mod 100 \<noteq> 50 \<and> (108 * S) mod 100 \<noteq> 50"
proof -
  have a: "(8 * S mod 100) mod 4 = (8 * S) mod 4" by (rule mod_mod_cancel) simp
  have "8 * S = 4 * (2 * S)" by simp
  then have "(8 * S) mod 4 = 0" by (simp only: mod_mult_self1_is_0)
  with a have 1: "8 * S mod 100 \<noteq> 50" by auto
  have b: "(108 * S mod 100) mod 4 = (108 * S) mod 4" by (rule mod_mod_cancel) simp
  have "108 * S = 4 * (27 * S)" by simp
  then have "(108 * S) mod 4 = 0" by (simp only: mod_mult_self1_is_0)
  with b have 2: "108 * S mod 100 \<noteq> 50" by auto
  from 1 2 show ?thesis by simp
qed

text \<open>
  Claim C8. When a submission passes the card check with address \<open>a\<close> selected and the
  order insert commits the row \<open>ord\<close>, the shipping address stored on \<open>ord\<close> is the object
  built member by member from \<open>a\<close> (name, both address lines, city, state, postal code,
  country, phone); the orders table after the submission is the old one followed by
  \<open>ord\<close>; and after any later sequence of inserts, updates and deletes of addresses the
  orders table, hence every stored shipping address, is still the same.
\<close>

theorem shipping_address_is_a_snapshot:
  assumes ok: "\<not> card_details_missing (view w)"
    and sel: "selectedAddress (view w) = Some a"
    and ins: "orders_request env (store w) (orderData env w a) = Inr (rows', ord)"
  shows "shipping_address ord =
           [(''name'', Some (name a)), (''address_line_1'', Some (address_line_1 a)),
            (''address_line_2'', address_line_2 a), (''city'', Some (city a)),
            (''state'', state a), (''postal_code'', Some (postal_code a)),
            (''country'', Some (country a)), (''phone'', phone a)]
       \<and> orders (store (handlePaymentSubmit env w)) = orders (store w) @ [ord]
       \<and> orders (address_writes (store (handlePaymentSubmit env w)) ws)
           = orders (store w) @ [ord]"
proof -
  from orders_request_Inr[OF ins]
  have r: "rows' = orders (store w) @ [ord]"
    and "ord = (orderData env w a)\<lparr>order_number := order_number ord\<rparr>" by simp_all
  then have ship: "shipping_address ord = shipping_address (orderData env w a)"
    by (metis order.select_convs(11) order.surjective order.update_convs(2))
  have "orders (store (handlePaymentSubmit env w)) = rows'"
    using ok sel ins
    by (auto simp: handlePaymentSubmit_cases split: sum.splits dest: order_items_request_Inr)
  with r ship show ?thesis
    by (simp add: address_writes_orders orderData_def)
qed

theorem shipping_address_is_a_snapshot_witness:
  "map shipping_address
     (orders (address_writes
        (store (handlePaymentSubmit sample_submission
                  (sample_world (Some (sample_address 11 7 True)) [5])))
        [Update 11 (\<lambda>r. r\<lparr>city := ''Shelbyville''\<rparr>), Delete 11]))
   = [[(''name'', Some ''Ann''), (''address_line_1'', Some ''1 Main St''),
       (''address_line_2'', None), (''city'', Some ''Springfield''), (''state'', Some ''IL''),
       (''postal_code'', Some ''62701''), (''country'', Some ''United States''),
       (''phone'', None)]]
   \<and> addresses (address_writes
        (store (handlePaymentSubmit sample_submission
                  (sample_world (Some (sample_address 11 7 True)) [5])))
        [Update 11 (\<lambda>r. r\<lparr>city := ''Shelbyville''\<rparr>), Delete 11]) = []"
proof -
  let ?w = "sample_world (Some (sample_address 11 7 True)) [5]"
  let ?ws = "[Update 11 (\<lambda>r. r\<lparr>city := ''Shelbyville''\<rparr>), Delete 11]"
  from shipping_address_is_a_snapshot
    [where ws = ?ws, OF sample_card_details sample_selected sample_orders_request]
  have "shipping_address sample_stored_order
          = [(''name'', Some ''Ann''), (''address_line_1'', Some ''1 Main St''),
             (''address_line_2'', None), (''city'', Some ''Springfield''), (''state'', Some ''IL''),
             (''postal_code'', Some ''62701''), (''country'', Some ''United States''),
             (''phone'', None)]"
    and "orders (address_writes (store (handlePaymentSubmit sample_submission ?w)) ?ws)
          = [sample_stored_order]"
    by (simp_all add: sample_address_def sample_world_def)
  moreover have "addresses (store (handlePaymentSubmit sample_submission ?w))
      = [sample_address 11 7 True]"
    by (simp add: handlePaymentSubmit_cases sample_card_details sample_selected
        sample_orders_request sample_order_items_request sample_clear_cart)
       (simp add: sample_world_def sample_submission_def)
  then have "addresses (address_writes (store (handlePaymentSubmit sample_submission ?w)) ?ws) = []"
    by (simp add: address_writes_def update_address_def delete_address_def
        ensure_single_default_address_def sample_address_def)
  ultimately show ?thesis by simp
qed

text \<open>
  Claim C9, amended. When \<open>getCartTotal\<close> returns the subtotal \<open>S\<close> of the cart, the sum over
  its lines of unit price times quantity, and a submission passes the card check with an
  address selected, the order insert commits \<open>ord\<close> and the insert of the order items
  succeeds, then: \<open>ord\<close> is the last row of the orders table; its shipping and discount
  amounts are zero; its tax amount is \<open>0.08 S\<close> rounded to the cent and its total amount
  \<open>1.08 S\<close> rounded to the cent, each less than half a cent from the unrounded value; and
  the order items are the old ones followed by one row per cart line, in order, with the
  line's product key, name, sku, quantity and unit price and with total price equal to
  unit price times quantity.
\<close>

theorem checkout_amounts:
  assumes total: "getCartTotal env (cartItems w) = cart_subtotal (cartItems w)"
    and ok: "\<not> card_details_missing (view w)"
    and sel: "selectedAddress (view w) = Some a"
    and ins: "orders_request env (store w) (orderData env w a) = Inr (rows', ord)"
    and items: "order_items_request env ((store w)\<lparr>orders := rows'\<rparr>)
                  (orderItems ord (cartItems w)) = Inr d2"
  shows "orders (store (handlePaymentSubmit env w)) = orders (store w) @ [ord]
       \<and> shipping_amount ord = Some 0
       \<and> discount_amount ord = Some 0
       \<and> tax_amount ord = Some (to_cents (8 * cart_subtotal (cartItems w)))
       \<and> total_amount ord = to_cents (108 * cart_subtotal (cartItems w))
       \<and> \<bar>100 * to_cents (8 * cart_subtotal (cartItems w)) - 8 * cart_subtotal (cartItems w)\<bar> < 50
       \<and> \<bar>100 * to_cents (108 * cart_subtotal (cartItems w))
            - 108 * cart_subtotal (cartItems w)\<bar> < 50
       \<and> order_items (store (handlePaymentSubmit env w))
           = order_items (store w)
             @ map (\<lambda>item. \<lparr>order_id = ord_id ord, item_product_id = product_id item,
                             product_name = prod_name (product item),
                             product_sku = sku (product item),
                             item_quantity = quantity item,
                             unit_price = price (product item),
                             total_price = price (product item) * quantity item\<rparr>)
                 (cartItems w)
       \<and> list_all (\<lambda>r. total_price r = unit_price r * item_quantity r)
            (drop (length (order_items (store w)))
               (order_items (store (handlePaymentSubmit env w))))"
proof -
  let ?S = "cart_subtotal (cartItems w)"
  from orders_request_Inr[OF ins]
  have r: "rows' = orders (store w) @ [ord]"
    and o: "ord = (orderData env w a)\<lparr>order_number := order_number ord\<rparr>" by simp_all
  have "shipping_amount ord = shipping_amount (orderData env w a)"
    and "discount_amount ord = discount_amount (orderData env w a)"
    and "tax_amount ord = tax_amount (orderData env w a)"
    and "total_amount ord = total_amount (orderData env w a)"
    by (subst o, simp)+
  then have cols: "shipping_amount ord = Some 0" "discount_amount ord = Some 0"
    "tax_amount ord = Some (to_cents (8 * ?S))" "total_amount ord = to_cents (108 * ?S)"
    by (simp_all add: orderData_def total)
  have near: "\<bar>100 * to_cents (8 * ?S) - 8 * ?S\<bar> < 50"
    "\<bar>100 * to_cents (108 * ?S) - 108 * ?S\<bar> < 50"
    by (rule to_cents_near, simp only: no_tie not_False_eq_True)+
  from order_items_request_Inr[OF items]
  have d2: "d2 = (store w)\<lparr>orders := rows',
      order_items := order_items (store w) @ orderItems ord (cartItems w)\<rparr>"
    by simp
  have st: "store (handlePaymentSubmit env w) = d2"
    using ok sel ins items by (simp add: handlePaymentSubmit_cases split: sum.splits)
  have o1: "orders (store (handlePaymentSubmit env w)) = orders (store w) @ [ord]"
    by (simp add: st d2 r)
  have o2: "order_items (store (handlePaymentSubmit env w))
      = order_items (store w) @ orderItems ord (cartItems w)"
    by (simp add: st d2)
  have o3: "list_all (\<lambda>r. total_price r = unit_price r * item_quantity r)
      (orderItems ord (cartItems w))"
    by (simp add: orderItems_def list_all_iff)
  show ?thesis
    unfolding o1 o2 using cols near o3 by (simp add: orderItems_def)
qed

theorem checkout_amounts_witness:
  "orders (store (handlePaymentSubmit sample_submission
                    (sample_world (Some (sample_address 11 7 True)) [5])))
     = [sample_stored_order]
   \<and> shipping_amount sample_stored_order = Some 0
   \<and> discount_amount sample_stored_order = Some 0
   \<and> tax_amount sample_stored_order = Some 1280
   \<and> total_amount sample_stored_order = 17278
   \<and> order_items (store (handlePaymentSubmit sample_submission
                    (sample_world (Some (sample_address 11 7 True)) [5])))
     = [\<lparr>order_id = 40, item_product_id = 5, product_name = ''Yoga Mat Premium'',
         product_sku = Some ''YMP-006'', item_quantity = 2, unit_price = 7999,
         total_price = 15998\<rparr>]"
proof -
  let ?w = "sample_world (Some (sample_address 11 7 True)) [5]"
  have total: "getCartTotal sample_submission (cartItems ?w) = cart_subtotal (cartItems ?w)"
    by (simp add: sample_submission_def)
  have items: "order_items_request sample_submission
      ((store ?w)\<lparr>orders := [sample_stored_order]\<rparr>)
      (orderItems sample_stored_order (cartItems ?w))
    = Inr ((store ?w)\<lparr>orders := [sample_stored_order],
             order_items := [\<lparr>order_id = 40, item_product_id = 5,
                product_name = ''Yoga Mat Premium'', product_sku = Some ''YMP-006'',
                item_quantity = 2, unit_price = 7999, total_price = 15998\<rparr>]\<rparr>)"
    by (simp add: sample_order_items_request)
  have s: "ord_id sample_stored_order = 40"
    and i: "order_items (store ?w) = []"
    and cart: "cartItems ?w = [\<lparr>product_id = 5, quantity = 2,
        product = \<lparr>prod_name = ''Yoga Mat Premium'', sku = Some ''YMP-006'', price = 7999\<rparr>\<rparr>]"
    and o: "orders (store ?w) = []"
    by (simp_all add: sample_stored_order_def orderData_def sample_submission_def
        sample_world_def)
  from checkout_amounts
    [OF total sample_card_details sample_selected sample_orders_request items]
  show ?thesis
    unfolding s i o cart by (simp add: cart_subtotal_def to_cents_def)
qed

text \<open>
  The claim as stated fails: for the cart of two mats at 79.99 the subtotal is 159.98;
  the order is stored with tax 12.80 and total 172.78, while \<open>0.08 S\<close> is 12.7984 and
  \<open>1.08 S\<close> is 172.7784. (Amounts in cents; the equations are multiplied by a hundred.)
\<close>

theorem checkout_amounts_counterexample:
  "cart_subtotal (cartItems (sample_world (Some (sample_address 11 7 True)) [5])) = 15998
   \<and> orders (store (handlePaymentSubmit sample_submission
                      (sample_world (Some (sample_address 11 7 True)) [5])))
       = [sample_stored_order]
   \<and> tax_amount sample_stored_order = Some 1280
   \<and> total_amount sample_stored_order = 17278
   \<and> 100 * 1280 \<noteq> 8 * (15998::int)
   \<and> 100 * 17278 \<noteq> 108 * (15998::int)"
proof -
  let ?w = "sample_world (Some (sample_address 11 7 True)) [5]"
  have "orders (store (handlePaymentSubmit sample_submission ?w)) = [sample_stored_order]"
    by (simp add: handlePaymentSubmit_cases sample_card_details sample_selected
        sample_orders_request sample_order_items_request sample_clear_cart)
  then show ?thesis by (simp add: sample_amounts)
qed

text \<open>
  Claim C10. If a submission changes the cart, then it passed the card check with an
  address selected, the order insert committed a row \<open>ord\<close>, the insert of the order items
  succeeded and \<open>clearCart\<close> returned the new cart; and afterwards the orders table is the
  old one followed by \<open>ord\<close>, the order items are the old ones followed by the rows of the
  cart's lines, and the page shows the order as placed. If the order insert commits \<open>ord\<close>
  and the insert of the order items fails with \<open>e\<close>, then afterwards the orders table is
  the old one followed by \<open>ord\<close>; the order items, the cart and the rest of the store are
  unchanged; and the page shows the error built from \<open>e\<close>, with \<open>orderPlaced\<close> and the
  step as before. If the order insert fails with \<open>e\<close>, store and cart are unchanged and the
  page shows the error built from \<open>e\<close>. If both inserts succeed and \<open>clearCart\<close> returns
  the cart \<open>c\<close>, the store holds the order and its items, the cart is \<open>c\<close> and the page shows
  the order as placed, with its number.
\<close>

theorem cart_is_cleared_only_after_both_inserts:
  "(cartItems (handlePaymentSubmit env w) \<noteq> cartItems w \<longrightarrow>
      (\<exists>a ord c.
         \<not> card_details_missing (view w)
         \<and> selectedAddress (view w) = Some a
         \<and> orders_request env (store w) (orderData env w a)
             = Inr (orders (store w) @ [ord], ord)
         \<and> order_items_request env ((store w)\<lparr>orders := orders (store w) @ [ord]\<rparr>)
              (orderItems ord (cartItems w))
             = Inr ((store w)\<lparr>orders := orders (store w) @ [ord],
                      order_items := order_items (store w) @ orderItems ord (cartItems w)\<rparr>)
         \<and> clearCart env (cartItems w) = Inr c
         \<and> handlePaymentSubmit env w =
             \<lparr>store = (store w)\<lparr>orders := orders (store w) @ [ord],
                        order_items := order_items (store w) @ orderItems ord (cartItems w)\<rparr>,
              cartItems = c,
              view = (view w)\<lparr>loading := False, error := No_message,
                        newOrderId := order_number ord, orderPlaced := True,
                        currentStep := 3\<rparr>\<rparr>))
   \<and> (\<not> card_details_missing (view w)
        \<and> selectedAddress (view w) = Some a
        \<and> orders_request env (store w) (orderData env w a) = Inr (rows', ord)
        \<and> order_items_request env ((store w)\<lparr>orders := rows'\<rparr>)
             (orderItems ord (cartItems w)) = Inl e \<longrightarrow>
        rows' = orders (store w) @ [ord]
        \<and> handlePaymentSubmit env w =
            \<lparr>store = (store w)\<lparr>orders := orders (store w) @ [ord]\<rparr>,
             cartItems = cartItems w,
             view = (view w)\<lparr>loading := False, error := Error_placing_order e\<rparr>\<rparr>)
   \<and> (\<not> card_details_missing (view w)
        \<and> selectedAddress (view w) = Some a
        \<and> orders_request env (store w) (orderData env w a) = Inl e \<longrightarrow>
        handlePaymentSubmit env w =
            \<lparr>store = store w, cartItems = cartItems w,
             view = (view w)\<lparr>loading := False, error := Error_placing_order e\<rparr>\<rparr>)
   \<and> (\<not> card_details_missing (view w)
        \<and> selectedAddress (view w) = Some a
        \<and> orders_request env (store w) (orderData env w a) = Inr (rows', ord)
        \<and> order_items_request env ((store w)\<lparr>orders := rows'\<rparr>)
             (orderItems ord (cartItems w)) = Inr d2
        \<and> clearCart env (cartItems w) = Inr c \<longrightarrow>
        handlePaymentSubmit env w =
            \<lparr>store = (store w)\<lparr>orders := orders (store w) @ [ord],
                       order_items := order_items (store w) @ orderItems ord (cartItems w)\<rparr>,
             cartItems = c,
             view = (view w)\<lparr>loading := False, error := No_message,
                       newOrderId := order_number ord, orderPlaced := True,
                       currentStep := 3\<rparr>\<rparr>)"
proof (intro conjI impI)
  assume changed: "cartItems (handlePaymentSubmit env w) \<noteq> cartItems w"
  then have ok: "\<not> card_details_missing (view w)"
    by (auto simp: handlePaymentSubmit_cases)
  from changed ok obtain a where sel: "selectedAddress (view w) = Some a"
    by (cases "selectedAddress (view w)") (auto simp: handlePaymentSubmit_cases)
  from changed ok sel obtain rows' ord where
    ins: "orders_request env (store w) (orderData env w a) = Inr (rows', ord)"
    by (cases "orders_request env (store w) (orderData env w a)")
       (auto simp: handlePaymentSubmit_cases)
  from orders_request_Inr[OF ins] have r: "rows' = orders (store w) @ [ord]" by simp
  from changed ok sel ins obtain d2 where
    items: "order_items_request env ((store w)\<lparr>orders := rows'\<rparr>)
              (orderItems ord (cartItems w)) = Inr d2"
    by (cases "order_items_request env ((store w)\<lparr>orders := rows'\<rparr>)
              (orderItems ord (cartItems w))") (auto simp: handlePaymentSubmit_cases)
  from order_items_request_Inr[OF items]
  have d2: "d2 = (store w)\<lparr>orders := orders (store w) @ [ord],
      order_items := order_items (store w) @ orderItems ord (cartItems w)\<rparr>"
    by (simp add: r)
  from changed ok sel ins items obtain c where
    clear: "clearCart env (cartItems w) = Inr c"
    by (cases "clearCart env (cartItems w)") (auto simp: handlePaymentSubmit_cases)
  have "handlePaymentSubmit env w =
      \<lparr>store = d2, cartItems = c,
       view = (view w)\<lparr>loading := False, error := No_message,
                 newOrderId := order_number ord, orderPlaced := True, currentStep := 3\<rparr>\<rparr>"
    using ok sel ins items clear by (simp add: handlePaymentSubmit_cases)
  with ok sel ins items clear show "\<exists>a ord c.
         \<not> card_details_missing (view w)
         \<and> selectedAddress (view w) = Some a
         \<and> orders_request env (store w) (orderData env w a)
             = Inr (orders (store w) @ [ord], ord)
         \<and> order_items_request env ((store w)\<lparr>orders := orders (store w) @ [ord]\<rparr>)
              (orderItems ord (cartItems w))
             = Inr ((store w)\<lparr>orders := orders (store w) @ [ord],
                      order_items := order_items (store w) @ orderItems ord (cartItems w)\<rparr>)
         \<and> clearCart env (cartItems w) = Inr c
         \<and> handlePaymentSubmit env w =
             \<lparr>store = (store w)\<lparr>orders := orders (store w) @ [ord],
                        order_items := order_items (store w) @ orderItems ord (cartItems w)\<rparr>,
              cartItems = c,
              view = (view w)\<lparr>loading := False, error := No_message,
                        newOrderId := order_number ord, orderPlaced := True,
                        currentStep := 3\<rparr>\<rparr>"
    unfolding r d2 by blast
next
  assume a: "\<not> card_details_missing (view w)
        \<and> selectedAddress (view w) = Some a
        \<and> orders_request env (store w) (orderData env w a) = Inr (rows', ord)
        \<and> order_items_request env ((store w)\<lparr>orders := rows'\<rparr>)
             (orderItems ord (cartItems w)) = Inl e"
  from a orders_request_Inr have r: "rows' = orders (store w) @ [ord]" by blast
  from a have "handlePaymentSubmit env w =
      w\<lparr>store := (store w)\<lparr>orders := rows'\<rparr>,
        view := (view w)\<lparr>loading := False, error := Error_placing_order e\<rparr>\<rparr>"
    by (simp add: handlePaymentSubmit_cases)
  with r show "rows' = orders (store w) @ [ord]"
    and "handlePaymentSubmit env w =
            \<lparr>store = (store w)\<lparr>orders := orders (store w) @ [ord]\<rparr>,
             cartItems = cartItems w,
             view = (view w)\<lparr>loading := False, error := Error_placing_order e\<rparr>\<rparr>"
    by (cases w, simp)+
next
  assume a: "\<not> card_details_missing (view w)
        \<and> selectedAddress (view w) = Some a
        \<and> orders_request env (store w) (orderData env w a) = Inl e"
  then have "handlePaymentSubmit env w =
      w\<lparr>view := (view w)\<lparr>loading := False, error := Error_placing_order e\<rparr>\<rparr>"
    by (simp add: handlePaymentSubmit_cases)
  then show "handlePaymentSubmit env w =
            \<lparr>store = store w, cartItems = cartItems w,
             view = (view w)\<lparr>loading := False, error := Error_placing_order e\<rparr>\<rparr>"
    by (cases w) simp
next
  assume a: "\<not> card_details_missing (view w)
        \<and> selectedAddress (view w) = Some a
        \<and> orders_request env (store w) (orderData env w a) = Inr (rows', ord)
        \<and> order_items_request env ((store w)\<lparr>orders := rows'\<rparr>)
             (orderItems ord (cartItems w)) = Inr d2
        \<and> clearCart env (cartItems w) = Inr c"
  from a orders_request_Inr have r: "rows' = orders (store w) @ [ord]" by blast
  from a order_items_request_Inr
  have "d2 = (store w)\<lparr>orders := rows',
      order_items := order_items (store w) @ orderItems ord (cartItems w)\<rparr>"
    by fastforce
  with a r show "handlePaymentSubmit env w =
            \<lparr>store = (store w)\<lparr>orders := orders (store w) @ [ord],
                       order_items := order_items (store w) @ orderItems ord (cartItems w)\<rparr>,
             cartItems = c,
             view = (view w)\<lparr>loading := False, error := No_message,
                       newOrderId := order_number ord, orderPlaced := True,
                       currentStep := 3\<rparr>\<rparr>"
    by (simp add: handlePaymentSubmit_cases)
qed

theorem cart_is_cleared_only_after_both_inserts_witness:
  "handlePaymentSubmit sample_submission (sample_world (Some (sample_address 11 7 True)) [])
     = \<lparr>store = (store (sample_world (Some (sample_address 11 7 True)) []))
                 \<lparr>orders := [sample_stored_order]\<rparr>,
        cartItems = cartItems (sample_world (Some (sample_address 11 7 True)) []),
        view = (view (sample_world (Some (sample_address 11 7 True)) []))
                 \<lparr>loading := False, error := Error_placing_order Foreign_key_violation\<rparr>\<rparr>
   \<and> cartItems (handlePaymentSubmit sample_submission
                    (sample_world (Some (sample_address 11 7 True)) [5])) = []
   \<and> orderPlaced (view (handlePaymentSubmit sample_submission
                    (sample_world (Some (sample_address 11 7 True)) [5])))
   \<and> length (orders (store (handlePaymentSubmit sample_submission
                    (sample_world (Some (sample_address 11 7 True)) [5])))) = 1
   \<and> length (order_items (store (handlePaymentSubmit sample_submission
                    (sample_world (Some (sample_address 11 7 True)) [5])))) = 1"
proof -
  let ?w = "sample_world (Some (sample_address 11 7 True)) []"
  let ?v = "sample_world (Some (sample_address 11 7 True)) [5]"
  have items: "order_items_request sample_submission
      ((store ?w)\<lparr>orders := [sample_stored_order]\<rparr>)
      (orderItems sample_stored_order (cartItems ?w)) = Inl Foreign_key_violation"
    by (simp add: sample_order_items_request)
  have empty: "orders (store ?w) = []" by (simp add: sample_world_def)
  from cart_is_cleared_only_after_both_inserts
    [where env = sample_submission and w = ?w and a = "sample_address 11 7 True"
       and rows' = "[sample_stored_order]" and ord = sample_stored_order
       and e = Foreign_key_violation]
    sample_card_details[of "Some (sample_address 11 7 True)" "[]"]
    sample_selected[of "sample_address 11 7 True" "[]"]
    sample_orders_request[of "[]"] items
  have failed: "handlePaymentSubmit sample_submission ?w
     = \<lparr>store = (store ?w)\<lparr>orders := [sample_stored_order]\<rparr>,
        cartItems = cartItems ?w,
        view = (view ?w)\<lparr>loading := False, error := Error_placing_order Foreign_key_violation\<rparr>\<rparr>"
    by (simp add: empty)
  have cleared: "cartItems (handlePaymentSubmit sample_submission ?v) = []"
    by (simp add: handlePaymentSubmit_cases sample_card_details sample_selected
        sample_orders_request sample_order_items_request sample_clear_cart)
  then have "cartItems (handlePaymentSubmit sample_submission ?v) \<noteq> cartItems ?v"
    by (simp add: sample_world_def)
  with cart_is_cleared_only_after_both_inserts
    [where env = sample_submission and w = ?v]
  obtain ord c where "handlePaymentSubmit sample_submission ?v =
             \<lparr>store = (store ?v)\<lparr>orders := orders (store ?v) @ [ord],
                        order_items := order_items (store ?v) @ orderItems ord (cartItems ?v)\<rparr>,
              cartItems = c,
              view = (view ?v)\<lparr>loading := False, error := No_message,
                        newOrderId := order_number ord, orderPlaced := True,
                        currentStep := 3\<rparr>\<rparr>"
    by blast
  then have "orderPlaced (view (handlePaymentSubmit sample_submission ?v))"
    and "length (orders (store (handlePaymentSubmit sample_submission ?v))) = 1"
    and "length (order_items (store (handlePaymentSubmit sample_submission ?v))) = 1"
    by (simp_all add: sample_world_def orderItems_def)
  with failed cleared show ?thesis by simp
qed

end
